theory Spec2Isabelle
  imports Complex_Main
begin

section \<open>Vector types\<close>

text \<open>
  The structs \<^verbatim>\<open>vec3<T>\<close> and \<^verbatim>\<open>vec4<T>\<close> of \<^verbatim>\<open>nbody_renderer.h\<close>. The fields
  \<^verbatim>\<open>x, y, z, w\<close> carry the arity of their struct as a suffix, since the two records
  cannot share field names. The fourth field of a position is the mass of the body.
\<close>

record 'a vec3 =
  x3 :: 'a
  y3 :: 'a
  z3 :: 'a

record 'a vec4 =
  x4 :: 'a
  y4 :: 'a
  z4 :: 'a
  w4 :: 'a

section \<open>Arithmetic\<close>

text \<open>
  The code computes in \<^verbatim>\<open>float\<close> and \<^verbatim>\<open>double\<close>. The embedding is written once, over
  a type \<open>'a\<close> of values with the operations \<open>+\<close>, \<open>-\<close>, \<open>*\<close>, \<open>/\<close>, which are those of
  \<^verbatim>\<open>double\<close> (an operation with one \<^verbatim>\<open>double\<close> operand converts the other operand), and a
  record of the remaining operations: \<open>fadd\<close>, \<open>fsub\<close> and \<open>fmul\<close> are the operations on
  two \<^verbatim>\<open>float\<close> operands, whose result is a \<^verbatim>\<open>float\<close>; \<open>flt\<close> is the conversion of a
  \<^verbatim>\<open>double\<close> to \<^verbatim>\<open>float\<close> (a store into a \<^verbatim>\<open>float\<close> variable); \<open>sqrt_op\<close>, \<open>cos_op\<close> and
  \<open>sin_op\<close> are the functions of \<^verbatim>\<open><cmath>\<close> called without a namespace, on \<^verbatim>\<open>double\<close>;
  \<open>lit\<close> reads a literal of type \<^verbatim>\<open>double\<close> or converts an integer, and \<open>flit\<close> reads a
  literal of type \<^verbatim>\<open>float\<close>.

  Two instances are used: exact arithmetic on \<^typ>\<open>real\<close>, and the type \<open>ieee\<close> below,
  which is IEEE 754 arithmetic in the formats binary32 and binary64.
\<close>

record 'a arith =
  fadd :: "'a \<Rightarrow> 'a \<Rightarrow> 'a"
  fsub :: "'a \<Rightarrow> 'a \<Rightarrow> 'a"
  fmul :: "'a \<Rightarrow> 'a \<Rightarrow> 'a"
  flt :: "'a \<Rightarrow> 'a"
  sqrt_op :: "'a \<Rightarrow> 'a"
  cos_op :: "'a \<Rightarrow> 'a"
  sin_op :: "'a \<Rightarrow> 'a"
  lit :: "real \<Rightarrow> 'a"
  flit :: "real \<Rightarrow> 'a"

definition real_arith :: "real arith" where
  "real_arith = \<lparr> fadd = (\<lambda>a b. a + b), fsub = (\<lambda>a b. a - b), fmul = (\<lambda>a b. a * b),
                  flt = (\<lambda>r. r), sqrt_op = sqrt, cos_op = cos, sin_op = sin,
                  lit = (\<lambda>r. r), flit = (\<lambda>r. r) \<rparr>"

subsection \<open>Values with infinities and NaN\<close>

text \<open>
  A value of either format is a real number or one of the three special values. There is
  one zero, which divides as \<open>+0\<close> does: the sign of a zero is not modelled.
\<close>

datatype ieee = Finite real | PlusInf | MinusInf | NaN

fun isfinite :: "ieee \<Rightarrow> bool" where
  "isfinite (Finite r) = True"
| "isfinite PlusInf = False"
| "isfinite MinusInf = False"
| "isfinite NaN = False"

subsection \<open>Rounding to a binary format\<close>

text \<open>
  A format has a precision \<open>prec\<close> (the number of bits of the significand, the hidden bit
  included) and the exponents \<open>emin\<close> and \<open>emax\<close> of its smallest and largest normal
  binades. The largest finite number is \<open>(2 ^ prec - 1) * 2 ^ (emax - prec + 1)\<close>:
  \<^verbatim>\<open>FLT_MAX\<close> for binary32 and \<^verbatim>\<open>DBL_MAX\<close> for binary64.
\<close>

record format =
  prec :: nat
  emin :: int
  emax :: int

definition binary32 :: format where
  "binary32 = \<lparr> prec = 24, emin = - 126, emax = 127 \<rparr>"

definition binary64 :: format where
  "binary64 = \<lparr> prec = 53, emin = - 1022, emax = 1023 \<rparr>"

definition wellformed :: "format \<Rightarrow> bool" where
  "wellformed fmt = (1 \<le> prec fmt \<and> emin fmt \<le> emax fmt)"

definition largest :: "format \<Rightarrow> real" where
  "largest fmt = (2 ^ prec fmt - 1) * 2 powi (emax fmt - int (prec fmt) + 1)"

text \<open>
  The exponent of the binade of a magnitude \<open>a\<close>: the \<open>e\<close> with \<open>2 ^ e \<le> a < 2 ^ (e + 1)\<close>,
  but not below \<open>emin\<close> (the subnormal numbers share the spacing of the smallest normal
  binade) and not above \<open>emax\<close>. It is found by a search upwards from \<open>emin\<close>. The
  representable numbers of that binade are the multiples of \<open>ulp\<close>.
\<close>

primrec binade_from :: "real \<Rightarrow> int \<Rightarrow> nat \<Rightarrow> int" where
  "binade_from a e 0 = e"
| "binade_from a e (Suc k) = (if 2 powi (e + 1) \<le> a then binade_from a (e + 1) k else e)"

definition exponent :: "format \<Rightarrow> real \<Rightarrow> int" where
  "exponent fmt a = binade_from a (emin fmt) (nat (emax fmt - emin fmt))"

definition ulp :: "format \<Rightarrow> real \<Rightarrow> real" where
  "ulp fmt a = 2 powi (exponent fmt a - int (prec fmt) + 1)"

text \<open>The nearest integer, a tie going to the even one.\<close>

definition nearest_even :: "real \<Rightarrow> int" where
  "nearest_even r =
     (let f = \<lfloor>r\<rfloor>; d = r - of_int f
      in if d < 1 / 2 then f else if 1 / 2 < d then f + 1 else if even f then f else f + 1)"

text \<open>
  Rounding to nearest, ties to even: the magnitude is rounded to a multiple of the \<open>ulp\<close>
  of its binade, the sign is kept, and a rounded magnitude above the largest finite number
  of the format is an infinity. So a result overflows from \<open>largest + ulp / 2\<close> on, and a
  magnitude of at most half the smallest subnormal number becomes zero.
\<close>

definition round_magnitude :: "format \<Rightarrow> real \<Rightarrow> real" where
  "round_magnitude fmt a = of_int (nearest_even (a / ulp fmt a)) * ulp fmt a"

definition round_real :: "format \<Rightarrow> real \<Rightarrow> real" where
  "round_real fmt x = (if x < 0 then - round_magnitude fmt (- x) else round_magnitude fmt x)"

definition round_to :: "format \<Rightarrow> real \<Rightarrow> ieee" where
  "round_to fmt x =
     (let r = round_real fmt x
      in if largest fmt < r then PlusInf else if r < - largest fmt then MinusInf else Finite r)"

text \<open>A number of the format: rounding leaves it as it is, and it is in the finite range.\<close>

definition representable :: "format \<Rightarrow> real \<Rightarrow> bool" where
  "representable fmt c = (round_real fmt c = c \<and> \<bar>c\<bar> \<le> largest fmt)"

subsection \<open>The operations\<close>

text \<open>
  An operation on finite operands rounds the exact result to the format; the special
  values combine as in IEEE 754. \<open>inf_of_sign r\<close> is the infinity of the sign of \<open>r\<close>, and
  \<open>NaN\<close> for \<open>r = 0\<close> (as in \<open>0 * inf\<close> and \<open>0 / 0\<close>).
\<close>

fun ieee_neg :: "ieee \<Rightarrow> ieee" where
  "ieee_neg (Finite r) = Finite (- r)"
| "ieee_neg PlusInf = MinusInf"
| "ieee_neg MinusInf = PlusInf"
| "ieee_neg NaN = NaN"

fun ieee_add :: "format \<Rightarrow> ieee \<Rightarrow> ieee \<Rightarrow> ieee" where
  "ieee_add fmt (Finite a) (Finite b) = round_to fmt (a + b)"
| "ieee_add fmt NaN b = NaN"
| "ieee_add fmt a NaN = NaN"
| "ieee_add fmt PlusInf MinusInf = NaN"
| "ieee_add fmt MinusInf PlusInf = NaN"
| "ieee_add fmt PlusInf b = PlusInf"
| "ieee_add fmt a PlusInf = PlusInf"
| "ieee_add fmt MinusInf b = MinusInf"
| "ieee_add fmt a MinusInf = MinusInf"

definition inf_of_sign :: "real \<Rightarrow> ieee" where
  "inf_of_sign r = (if r = 0 then NaN else if 0 < r then PlusInf else MinusInf)"

fun ieee_mul :: "format \<Rightarrow> ieee \<Rightarrow> ieee \<Rightarrow> ieee" where
  "ieee_mul fmt (Finite a) (Finite b) = round_to fmt (a * b)"
| "ieee_mul fmt NaN b = NaN"
| "ieee_mul fmt a NaN = NaN"
| "ieee_mul fmt (Finite a) PlusInf = inf_of_sign a"
| "ieee_mul fmt (Finite a) MinusInf = inf_of_sign (- a)"
| "ieee_mul fmt PlusInf (Finite b) = inf_of_sign b"
| "ieee_mul fmt MinusInf (Finite b) = inf_of_sign (- b)"
| "ieee_mul fmt PlusInf PlusInf = PlusInf"
| "ieee_mul fmt PlusInf MinusInf = MinusInf"
| "ieee_mul fmt MinusInf PlusInf = MinusInf"
| "ieee_mul fmt MinusInf MinusInf = PlusInf"

fun ieee_div :: "format \<Rightarrow> ieee \<Rightarrow> ieee \<Rightarrow> ieee" where
  "ieee_div fmt (Finite a) (Finite b) =
     (if b = 0 then inf_of_sign a else round_to fmt (a / b))"
| "ieee_div fmt NaN b = NaN"
| "ieee_div fmt a NaN = NaN"
| "ieee_div fmt (Finite a) PlusInf = Finite 0"
| "ieee_div fmt (Finite a) MinusInf = Finite 0"
| "ieee_div fmt PlusInf (Finite b) = (if 0 \<le> b then PlusInf else MinusInf)"
| "ieee_div fmt MinusInf (Finite b) = (if 0 \<le> b then MinusInf else PlusInf)"
| "ieee_div fmt PlusInf PlusInf = NaN"
| "ieee_div fmt PlusInf MinusInf = NaN"
| "ieee_div fmt MinusInf PlusInf = NaN"
| "ieee_div fmt MinusInf MinusInf = NaN"

fun ieee_sqrt :: "format \<Rightarrow> ieee \<Rightarrow> ieee" where
  "ieee_sqrt fmt (Finite a) = (if a < 0 then NaN else round_to fmt (sqrt a))"
| "ieee_sqrt fmt PlusInf = PlusInf"
| "ieee_sqrt fmt MinusInf = NaN"
| "ieee_sqrt fmt NaN = NaN"

text \<open>The cosine and the sine, taken as correctly rounded.\<close>

fun ieee_cos :: "format \<Rightarrow> ieee \<Rightarrow> ieee" where
  "ieee_cos fmt (Finite a) = round_to fmt (cos a)"
| "ieee_cos fmt PlusInf = NaN"
| "ieee_cos fmt MinusInf = NaN"
| "ieee_cos fmt NaN = NaN"

fun ieee_sin :: "format \<Rightarrow> ieee \<Rightarrow> ieee" where
  "ieee_sin fmt (Finite a) = round_to fmt (sin a)"
| "ieee_sin fmt PlusInf = NaN"
| "ieee_sin fmt MinusInf = NaN"
| "ieee_sin fmt NaN = NaN"

text \<open>The conversion of a \<^verbatim>\<open>double\<close> to \<^verbatim>\<open>float\<close> rounds to binary32.\<close>

fun to_float :: "ieee \<Rightarrow> ieee" where
  "to_float (Finite a) = round_to binary32 a"
| "to_float PlusInf = PlusInf"
| "to_float MinusInf = MinusInf"
| "to_float NaN = NaN"

text \<open>The operators \<open>+\<close>, \<open>-\<close>, \<open>*\<close>, \<open>/\<close> on \<open>ieee\<close> are the operations of \<^verbatim>\<open>double\<close>.\<close>

instantiation ieee :: "{zero,one,plus,minus,uminus,times,inverse}"
begin

definition zero_ieee :: ieee where
  "zero_ieee = Finite 0"

definition one_ieee :: ieee where
  "one_ieee = Finite 1"

definition plus_ieee :: "ieee \<Rightarrow> ieee \<Rightarrow> ieee" where
  "plus_ieee a b = ieee_add binary64 a b"

definition minus_ieee :: "ieee \<Rightarrow> ieee \<Rightarrow> ieee" where
  "minus_ieee a b = ieee_add binary64 a (ieee_neg b)"

definition uminus_ieee :: "ieee \<Rightarrow> ieee" where
  "uminus_ieee a = ieee_neg a"

definition times_ieee :: "ieee \<Rightarrow> ieee \<Rightarrow> ieee" where
  "times_ieee a b = ieee_mul binary64 a b"

definition divide_ieee :: "ieee \<Rightarrow> ieee \<Rightarrow> ieee" where
  "divide_ieee a b = ieee_div binary64 a b"

definition inverse_ieee :: "ieee \<Rightarrow> ieee" where
  "inverse_ieee a = ieee_div binary64 (Finite 1) a"

instance ..

end

definition ieee_arith :: "ieee arith" where
  "ieee_arith = \<lparr> fadd = ieee_add binary32,
                  fsub = (\<lambda>a b. ieee_add binary32 a (ieee_neg b)),
                  fmul = ieee_mul binary32,
                  flt = to_float,
                  sqrt_op = ieee_sqrt binary64, cos_op = ieee_cos binary64, sin_op = ieee_sin binary64,
                  lit = round_to binary64, flit = round_to binary32 \<rparr>"

subsection \<open>Finite vectors and bounds\<close>

text \<open>
  Finite inputs are the images of real vectors. A position is within the box \<open>B\<close>, \<open>M\<close>
  when its coordinates are at most \<open>B\<close> and its mass at most \<open>M\<close> in magnitude. A value
  is between two bounds when it is finite and lies between them.
\<close>

definition toIeee3 :: "real vec3 \<Rightarrow> ieee vec3" where
  "toIeee3 a = \<lparr> x3 = Finite (x3 a), y3 = Finite (y3 a), z3 = Finite (z3 a) \<rparr>"

definition toIeee4 :: "real vec4 \<Rightarrow> ieee vec4" where
  "toIeee4 p = \<lparr> x4 = Finite (x4 p), y4 = Finite (y4 p), z4 = Finite (z4 p), w4 = Finite (w4 p) \<rparr>"

definition withinBox :: "real \<Rightarrow> real \<Rightarrow> real vec4 \<Rightarrow> bool" where
  "withinBox B M p = (\<bar>x4 p\<bar> \<le> B \<and> \<bar>y4 p\<bar> \<le> B \<and> \<bar>z4 p\<bar> \<le> B \<and> \<bar>w4 p\<bar> \<le> M)"

definition between :: "real \<Rightarrow> real \<Rightarrow> ieee \<Rightarrow> bool" where
  "between lo hi v = (case v of Finite r \<Rightarrow> lo \<le> r \<and> r \<le> hi | _ \<Rightarrow> False)"

definition within3 :: "real \<Rightarrow> ieee vec3 \<Rightarrow> bool" where
  "within3 K a = (between (- K) K (x3 a) \<and> between (- K) K (y3 a) \<and> between (- K) K (z3 a))"

section \<open>Simulation parameters\<close>

text \<open>The constants of the simulation drivers.\<close>

definition NUM_PARTICLES :: int where
  "NUM_PARTICLES = 1000"

definition NUM_FRAMES :: int where
  "NUM_FRAMES = 300"

definition TIME_STEP :: real where
  "TIME_STEP = 1 / 100"

definition G :: real where
  "G = 6.67430 / 10 ^ 11"

section \<open>The direct force evaluator\<close>

text \<open>
  \<^verbatim>\<open>calculateAccelerations\<close>. The arrays are lists; an index beyond the end of an array
  is undefined behaviour in the source and the result \<open>None\<close> here. The first loop clears
  the accelerations of the bodies \<open>0 .. numParticles - 1\<close>.
\<close>

definition clearAccelerations :: "nat \<Rightarrow> ('a::zero) vec3 list \<Rightarrow> 'a vec3 list" where
  "clearAccelerations n bodyAccel =
     fold (\<lambda>i acc. acc[i := (acc ! i)\<lparr> x3 := 0, y3 := 0, z3 := 0 \<rparr>]) [0..<n] bodyAccel"

text \<open>
  The body of the inner loop, for the pair \<open>(i, j)\<close>. The operations are those of
  \<^verbatim>\<open>float\<close>, but for the inverse distance: \<^verbatim>\<open>sqrt\<close> is called without a namespace, so it
  is the function on \<^verbatim>\<open>double\<close>, the quotient \<^verbatim>\<open>1.0f / sqrt(distSqr)\<close> is a quotient of
  \<^verbatim>\<open>double\<close>, and the store into \<^verbatim>\<open>invDist\<close> converts it.
\<close>

definition pairInteraction ::
  "('a::{one,plus,minus,times,inverse}) arith \<Rightarrow> 'a vec4 list \<Rightarrow> nat \<Rightarrow> nat \<Rightarrow>
     'a vec3 list \<Rightarrow> 'a vec3 list" where
  "pairInteraction A bodyPos i j bodyAccel =
     (if i = j then bodyAccel
      else
        let softening = flit A (1 / 10);
            dx = fsub A (x4 (bodyPos ! j)) (x4 (bodyPos ! i));
            dy = fsub A (y4 (bodyPos ! j)) (y4 (bodyPos ! i));
            dz = fsub A (z4 (bodyPos ! j)) (z4 (bodyPos ! i));
            distSqr = fadd A (fadd A (fadd A (fmul A dx dx) (fmul A dy dy)) (fmul A dz dz))
                        (fmul A softening softening);
            invDist = flt A (1 / sqrt_op A distSqr);
            invDistCube = fmul A (fmul A invDist invDist) invDist;
            s = fmul A (w4 (bodyPos ! j)) invDistCube;
            acc1 = bodyAccel[i := (bodyAccel ! i)\<lparr> x3 := fadd A (x3 (bodyAccel ! i)) (fmul A dx s) \<rparr>];
            acc2 = acc1[i := (acc1 ! i)\<lparr> y3 := fadd A (y3 (acc1 ! i)) (fmul A dy s) \<rparr>];
            acc3 = acc2[i := (acc2 ! i)\<lparr> z3 := fadd A (z3 (acc2 ! i)) (fmul A dz s) \<rparr>]
        in acc3)"

definition calculateAccelerations ::
  "('a::{zero,one,plus,minus,times,inverse}) arith \<Rightarrow> 'a vec4 list \<Rightarrow> 'a vec3 list \<Rightarrow> int \<Rightarrow>
     'a vec3 list option" where
  "calculateAccelerations A bodyPos bodyAccel numParticles =
     (let n = nat numParticles in
      if n \<le> length bodyPos \<and> n \<le> length bodyAccel then
        Some (fold (\<lambda>i acc. fold (\<lambda>j acc'. pairInteraction A bodyPos i j acc') [0..<n] acc)
                [0..<n] (clearAccelerations n bodyAccel))
      else None)"

text \<open>
  What the loops compute, body by body: the contribution of body \<open>j\<close> to the acceleration
  of body \<open>i\<close>, the accumulation of one contribution, and the acceleration of body \<open>i\<close>
  as the accumulation over \<open>j = 0 .. n - 1\<close> from zero, without \<open>j = i\<close>.
\<close>

definition pairAccel ::
  "('a::{one,plus,minus,times,inverse}) arith \<Rightarrow> 'a vec4 list \<Rightarrow> nat \<Rightarrow> nat \<Rightarrow> 'a vec3" where
  "pairAccel A bodyPos i j =
     (let softening = flit A (1 / 10);
          dx = fsub A (x4 (bodyPos ! j)) (x4 (bodyPos ! i));
          dy = fsub A (y4 (bodyPos ! j)) (y4 (bodyPos ! i));
          dz = fsub A (z4 (bodyPos ! j)) (z4 (bodyPos ! i));
          distSqr = fadd A (fadd A (fadd A (fmul A dx dx) (fmul A dy dy)) (fmul A dz dz))
                      (fmul A softening softening);
          invDist = flt A (1 / sqrt_op A distSqr);
          invDistCube = fmul A (fmul A invDist invDist) invDist;
          s = fmul A (w4 (bodyPos ! j)) invDistCube
      in \<lparr> x3 = fmul A dx s, y3 = fmul A dy s, z3 = fmul A dz s \<rparr>)"

definition accumulate :: "('a::plus) arith \<Rightarrow> 'a vec3 \<Rightarrow> 'a vec3 \<Rightarrow> 'a vec3" where
  "accumulate A a c =
     \<lparr> x3 = fadd A (x3 a) (x3 c), y3 = fadd A (y3 a) (y3 c), z3 = fadd A (z3 a) (z3 c) \<rparr>"

definition accelOn ::
  "('a::{zero,one,plus,minus,times,inverse}) arith \<Rightarrow> 'a vec4 list \<Rightarrow> nat \<Rightarrow> nat \<Rightarrow> 'a vec3" where
  "accelOn A bodyPos n i =
     fold (\<lambda>j a. if i = j then a else accumulate A a (pairAccel A bodyPos i j)) [0..<n]
       \<lparr> x3 = 0, y3 = 0, z3 = 0 \<rparr>"

text \<open>
  The pairwise sum of the specification, in exact arithmetic: the displacement from body
  \<open>i\<close> to body \<open>j\<close>, times the mass of \<open>j\<close>, over the softened squared distance to the
  power \<open>1.5\<close>, summed over all \<open>j \<noteq> i\<close> below \<open>n\<close>.
\<close>

definition softenedDistSqr :: "real vec4 \<Rightarrow> real vec4 \<Rightarrow> real" where
  "softenedDistSqr p q =
     (x4 q - x4 p) ^ 2 + (y4 q - y4 p) ^ 2 + (z4 q - z4 p) ^ 2 + (1 / 10) ^ 2"

definition pairwiseSum :: "real vec4 list \<Rightarrow> nat \<Rightarrow> nat \<Rightarrow> real vec3" where
  "pairwiseSum pos n i =
     \<lparr> x3 = (\<Sum>j \<in> {0..<n} - {i}. (x4 (pos ! j) - x4 (pos ! i)) * w4 (pos ! j)
                  / softenedDistSqr (pos ! i) (pos ! j) powr (3 / 2)),
       y3 = (\<Sum>j \<in> {0..<n} - {i}. (y4 (pos ! j) - y4 (pos ! i)) * w4 (pos ! j)
                  / softenedDistSqr (pos ! i) (pos ! j) powr (3 / 2)),
       z3 = (\<Sum>j \<in> {0..<n} - {i}. (z4 (pos ! j) - z4 (pos ! i)) * w4 (pos ! j)
                  / softenedDistSqr (pos ! i) (pos ! j) powr (3 / 2)) \<rparr>"

section \<open>The time integrator\<close>

text \<open>
  \<^verbatim>\<open>updateParticles\<close>. The source loops over the constant \<^verbatim>\<open>NUM_PARTICLES\<close> with the
  constant \<^verbatim>\<open>TIME_STEP\<close>, a \<^verbatim>\<open>double\<close>: the products and sums are those of
  \<^verbatim>\<open>double\<close>, and the store into the \<^verbatim>\<open>float\<close> field converts. The loop is written for
  any count and step first. The three arrays are distinct, as they are in \<^verbatim>\<open>main\<close>.
\<close>

definition updateParticle ::
  "('a::{plus,times}) arith \<Rightarrow> 'a \<Rightarrow> 'a vec3 list \<Rightarrow> nat \<Rightarrow>
     'a vec4 list \<times> 'a vec3 list \<Rightarrow> 'a vec4 list \<times> 'a vec3 list" where
  "updateParticle A dt bodyAccel i st =
     (case st of (bodyPos, bodyVel) \<Rightarrow>
        let vel1 = bodyVel[i := (bodyVel ! i)\<lparr> x3 := flt A (x3 (bodyVel ! i) + x3 (bodyAccel ! i) * dt) \<rparr>];
            vel2 = vel1[i := (vel1 ! i)\<lparr> y3 := flt A (y3 (vel1 ! i) + y3 (bodyAccel ! i) * dt) \<rparr>];
            vel3 = vel2[i := (vel2 ! i)\<lparr> z3 := flt A (z3 (vel2 ! i) + z3 (bodyAccel ! i) * dt) \<rparr>];
            pos1 = bodyPos[i := (bodyPos ! i)\<lparr> x4 := flt A (x4 (bodyPos ! i) + x3 (vel3 ! i) * dt) \<rparr>];
            pos2 = pos1[i := (pos1 ! i)\<lparr> y4 := flt A (y4 (pos1 ! i) + y3 (vel3 ! i) * dt) \<rparr>];
            pos3 = pos2[i := (pos2 ! i)\<lparr> z4 := flt A (z4 (pos2 ! i) + z3 (vel3 ! i) * dt) \<rparr>]
        in (pos3, vel3))"

definition updateParticles_n ::
  "('a::{plus,times}) arith \<Rightarrow> 'a \<Rightarrow> nat \<Rightarrow> 'a vec4 list \<Rightarrow> 'a vec3 list \<Rightarrow> 'a vec3 list \<Rightarrow>
     ('a vec4 list \<times> 'a vec3 list) option" where
  "updateParticles_n A dt n bodyPos bodyVel bodyAccel =
     (if n \<le> length bodyPos \<and> n \<le> length bodyVel \<and> n \<le> length bodyAccel then
        Some (fold (updateParticle A dt bodyAccel) [0..<n] (bodyPos, bodyVel))
      else None)"

definition updateParticles ::
  "('a::{plus,times}) arith \<Rightarrow> 'a vec4 list \<Rightarrow> 'a vec3 list \<Rightarrow> 'a vec3 list \<Rightarrow>
     ('a vec4 list \<times> 'a vec3 list) option" where
  "updateParticles A bodyPos bodyVel bodyAccel =
     updateParticles_n A (lit A TIME_STEP) (nat NUM_PARTICLES) bodyPos bodyVel bodyAccel"

text \<open>One step of the integrator on one body: the new velocity, and the new position from it.\<close>

definition stepVel :: "('a::{plus,times}) arith \<Rightarrow> 'a \<Rightarrow> 'a vec3 \<Rightarrow> 'a vec3 \<Rightarrow> 'a vec3" where
  "stepVel A dt v a =
     \<lparr> x3 = flt A (x3 v + x3 a * dt), y3 = flt A (y3 v + y3 a * dt), z3 = flt A (z3 v + z3 a * dt) \<rparr>"

definition stepPos :: "('a::{plus,times}) arith \<Rightarrow> 'a \<Rightarrow> 'a vec4 \<Rightarrow> 'a vec3 \<Rightarrow> 'a vec4" where
  "stepPos A dt p v =
     \<lparr> x4 = flt A (x4 p + x3 v * dt), y4 = flt A (y4 p + y3 v * dt), z4 = flt A (z4 p + z3 v * dt),
       w4 = w4 p \<rparr>"

text \<open>The sum of mass times acceleration over the first \<open>n\<close> bodies: the total force.\<close>

definition totalForce :: "nat \<Rightarrow> real vec4 list \<Rightarrow> real vec3 list \<Rightarrow> real vec3" where
  "totalForce n bodyPos bodyAccel =
     \<lparr> x3 = (\<Sum>i<n. w4 (bodyPos ! i) * x3 (bodyAccel ! i)),
       y3 = (\<Sum>i<n. w4 (bodyPos ! i) * y3 (bodyAccel ! i)),
       z3 = (\<Sum>i<n. w4 (bodyPos ! i) * z3 (bodyAccel ! i)) \<rparr>"

text \<open>The total momentum of the first \<open>n\<close> bodies: the sum of mass times velocity.\<close>

definition momentum :: "nat \<Rightarrow> real vec4 list \<Rightarrow> real vec3 list \<Rightarrow> real vec3" where
  "momentum n bodyPos bodyVel =
     \<lparr> x3 = (\<Sum>i<n. w4 (bodyPos ! i) * x3 (bodyVel ! i)),
       y3 = (\<Sum>i<n. w4 (bodyPos ! i) * y3 (bodyVel ! i)),
       z3 = (\<Sum>i<n. w4 (bodyPos ! i) * z3 (bodyVel ! i)) \<rparr>"

section \<open>The error metric of the benchmark harness\<close>

text \<open>
  The loop of \<^verbatim>\<open>main\<close> in \<^verbatim>\<open>test.cpp\<close> that compares the two acceleration arrays:
  \<^verbatim>\<open>bodyAccel\<close> holds the result of the direct evaluation (the reference),
  \<^verbatim>\<open>bodyAcceld\<close> the copy of the approximate result. The products of the components are
  \<^verbatim>\<open>float\<close> operations; \<^verbatim>\<open>difference\<close>, \<^verbatim>\<open>normalizer\<close> and \<^verbatim>\<open>L2norm\<close> are \<^verbatim>\<open>double\<close>.
\<close>

definition errorStep ::
  "('a::{plus,minus,times,inverse}) arith \<Rightarrow> 'a vec3 list \<Rightarrow> 'a vec3 list \<Rightarrow> int \<Rightarrow> nat \<Rightarrow> 'a \<Rightarrow> 'a" where
  "errorStep A bodyAccel bodyAcceld numParticles i L2norm =
     (let difference =
            fadd A
              (fadd A
                (fmul A (fsub A (x3 (bodyAccel ! i)) (x3 (bodyAcceld ! i)))
                        (fsub A (x3 (bodyAccel ! i)) (x3 (bodyAcceld ! i))))
                (fmul A (fsub A (y3 (bodyAccel ! i)) (y3 (bodyAcceld ! i)))
                        (fsub A (y3 (bodyAccel ! i)) (y3 (bodyAcceld ! i)))))
              (fmul A (fsub A (z3 (bodyAccel ! i)) (z3 (bodyAcceld ! i)))
                      (fsub A (z3 (bodyAccel ! i)) (z3 (bodyAcceld ! i))));
          normalizer =
            fadd A
              (fadd A (fmul A (x3 (bodyAccel ! i)) (x3 (bodyAccel ! i)))
                      (fmul A (y3 (bodyAccel ! i)) (y3 (bodyAccel ! i))))
              (fmul A (z3 (bodyAccel ! i)) (z3 (bodyAccel ! i)))
      in L2norm + difference / normalizer / lit A (real_of_int numParticles))"

definition main_L2norm ::
  "('a::{zero,plus,minus,times,inverse}) arith \<Rightarrow> 'a vec3 list \<Rightarrow> 'a vec3 list \<Rightarrow> int \<Rightarrow> 'a option" where
  "main_L2norm A bodyAccel bodyAcceld numParticles =
     (let n = nat numParticles in
      if n \<le> length bodyAccel \<and> n \<le> length bodyAcceld then
        Some (sqrt_op A (fold (errorStep A bodyAccel bodyAcceld numParticles) [0..<n] 0))
      else None)"

text \<open>
  The documented formula, in exact arithmetic: the sum over the bodies of the squared
  difference relative to the squared magnitude of the reference, divided by \<open>N\<close> after
  the summation, then the square root.
\<close>

definition squaredDifference :: "real vec3 \<Rightarrow> real vec3 \<Rightarrow> real" where
  "squaredDifference a b = (x3 a - x3 b) ^ 2 + (y3 a - y3 b) ^ 2 + (z3 a - z3 b) ^ 2"

definition squaredMagnitude :: "real vec3 \<Rightarrow> real" where
  "squaredMagnitude a = (x3 a) ^ 2 + (y3 a) ^ 2 + (z3 a) ^ 2"

definition documented_L2 :: "real vec3 list \<Rightarrow> real vec3 list \<Rightarrow> nat \<Rightarrow> real" where
  "documented_L2 reference approx n =
     sqrt ((\<Sum>i<n. squaredDifference (reference ! i) (approx ! i) / squaredMagnitude (reference ! i))
             / real n)"

text \<open>
  The two quantities of one iteration of the loop, as the loop computes them: the squared
  magnitude of the reference acceleration (\<^verbatim>\<open>normalizer\<close>) and the squared difference
  (\<^verbatim>\<open>difference\<close>). An acceleration is finite when its three components are.
\<close>

definition referenceSqr :: "('a::{plus,times}) arith \<Rightarrow> 'a vec3 \<Rightarrow> 'a" where
  "referenceSqr A a =
     fadd A (fadd A (fmul A (x3 a) (x3 a)) (fmul A (y3 a) (y3 a))) (fmul A (z3 a) (z3 a))"

definition differenceSqr :: "('a::{plus,minus,times}) arith \<Rightarrow> 'a vec3 \<Rightarrow> 'a vec3 \<Rightarrow> 'a" where
  "differenceSqr A a b =
     fadd A
       (fadd A (fmul A (fsub A (x3 a) (x3 b)) (fsub A (x3 a) (x3 b)))
               (fmul A (fsub A (y3 a) (y3 b)) (fsub A (y3 a) (y3 b))))
       (fmul A (fsub A (z3 a) (z3 b)) (fsub A (z3 a) (z3 b)))"

fun finite3 :: "ieee vec3 \<Rightarrow> bool" where
  "finite3 a = (isfinite (x3 a) \<and> isfinite (y3 a) \<and> isfinite (z3 a))"

text \<open>A value that is not negative: a finite number from zero on, or the positive infinity.\<close>

fun nonnegative :: "ieee \<Rightarrow> bool" where
  "nonnegative (Finite r) = (0 \<le> r)"
| "nonnegative PlusInf = True"
| "nonnegative MinusInf = False"
| "nonnegative NaN = False"

section \<open>The initial condition generator\<close>

text \<open>
  \<^verbatim>\<open>initializeParticles\<close>, in the variant with the four configurations. The generator
  \<^verbatim>\<open>std::mt19937\<close> and the distributions of the standard library are parameters:
  \<open>uniform a b gen\<close> is one draw of \<^verbatim>\<open>std::uniform_real_distribution<float>(a, b)\<close> from the
  generator in state \<open>gen\<close>, with the next state. The source fills the constant
  \<^verbatim>\<open>NUM_PARTICLES\<close> of bodies; the loops are written for any count \<open>n\<close> first. The
  variant of the direct simulation has the first two configurations only and treats the
  other two as \<^verbatim>\<open>RANDOM\<close>.
\<close>

datatype SimulationType = RANDOM | SPIRAL_GALAXY | BINARY_SYSTEM | SOLAR_SYSTEM

type_synonym ('a, 'g) bodies = "'a vec4 list \<times> 'a vec3 list \<times> 'g"

text \<open>The bodies of the loops: each draws in the order of the source and fills body \<open>i\<close>.\<close>

definition randomBody ::
  "('a::times) arith \<Rightarrow> (real \<Rightarrow> real \<Rightarrow> 'g \<Rightarrow> 'a \<times> 'g) \<Rightarrow> nat \<Rightarrow> ('a, 'g) bodies \<Rightarrow> ('a, 'g) bodies" where
  "randomBody A uniform i st =
     (case st of (bodyPos, bodyVel, gen) \<Rightarrow>
        let (px, g1) = uniform (- 10) 10 gen;
            (py, g2) = uniform (- 10) 10 g1;
            (pz, g3) = uniform (- 10) 10 g2;
            (m, g4) = uniform (1 / 10) 1 g3;
            (vx, g5) = uniform (- 10) 10 g4;
            (vy, g6) = uniform (- 10) 10 g5;
            (vz, g7) = uniform (- 10) 10 g6
        in (bodyPos[i := \<lparr> x4 = px, y4 = py, z4 = pz, w4 = m \<rparr>],
            bodyVel[i := \<lparr> x3 = flt A (vx * lit A (1 / 10)), y3 = flt A (vy * lit A (1 / 10)),
                           z3 = flt A (vz * lit A (1 / 10)) \<rparr>],
            g7))"

definition spiralBody ::
  "('a::{zero,plus,uminus,times,inverse}) arith \<Rightarrow> (real \<Rightarrow> real \<Rightarrow> 'g \<Rightarrow> 'a \<times> 'g) \<Rightarrow> nat \<Rightarrow>
     ('a, 'g) bodies \<Rightarrow> ('a, 'g) bodies" where
  "spiralBody A uniform i st =
     (case st of (bodyPos, bodyVel, gen) \<Rightarrow>
        let (angle, g1) = uniform 0 (2 * pi) gen;
            (radius, g2) = uniform (1 / 10) 10 g1;
            spiralFactor = flt A (angle / lit A 10);
            (height, g3) = uniform (- (1 / 2)) (1 / 2) g2;
            (m, g4) = uniform (1 / 10) 1 g3;
            pos' = bodyPos[i := \<lparr> x4 = flt A (radius * cos_op A (fadd A angle spiralFactor)),
                                  y4 = flt A (radius * sin_op A (fadd A angle spiralFactor)),
                                  z4 = flt A (height * (radius / lit A 10)),
                                  w4 = m \<rparr>];
            orbitalSpeed = flt A (sqrt_op A (lit A G * w4 (pos' ! 0) / radius))
        in (pos',
            bodyVel[i := \<lparr> x3 = flt A (- orbitalSpeed * sin_op A (fadd A angle spiralFactor)),
                           y3 = flt A (orbitalSpeed * cos_op A (fadd A angle spiralFactor)),
                           z3 = 0 \<rparr>],
            g4))"

definition binaryPlanet ::
  "('a::{zero,plus,minus,uminus,times,inverse}) arith \<Rightarrow> (real \<Rightarrow> real \<Rightarrow> 'g \<Rightarrow> 'a \<times> 'g) \<Rightarrow> nat \<Rightarrow>
     ('a, 'g) bodies \<Rightarrow> ('a, 'g) bodies" where
  "binaryPlanet A uniform i st =
     (case st of (bodyPos, bodyVel, gen) \<Rightarrow>
        let (angle, g1) = uniform 0 (2 * pi) gen;
            (radius, g2) = uniform 3 10 g1;
            (t, g3) = uniform 0 (2 * pi) g2;
            (m, g4) = uniform (1 / 10) (1 / 2) g3;
            pos' = bodyPos[i := \<lparr> x4 = flt A (radius * cos_op A angle),
                                  y4 = flt A (radius * sin_op A angle),
                                  z4 = flt A ((t - lit A pi) * lit A (1 / 10)),
                                  w4 = m \<rparr>];
            centerMass = fadd A (w4 (pos' ! 0)) (w4 (pos' ! 1));
            orbitalSpeed = flt A (sqrt_op A (lit A G * centerMass / radius) * lit A (7 / 10))
        in (pos',
            bodyVel[i := \<lparr> x3 = flt A (- orbitalSpeed * sin_op A angle),
                           y3 = flt A (orbitalSpeed * cos_op A angle),
                           z3 = 0 \<rparr>],
            g4))"

definition planetRadii :: "real list" where
  "planetRadii = [0.4, 0.7, 1.0, 1.5, 5.2, 9.5, 19.2, 30.1, 39.5]"

definition planetMasses :: "real list" where
  "planetMasses = [0.055, 0.815, 1.0, 0.107, 317.8, 95.2, 14.5, 17.1, 0.002]"

definition solarPlanet ::
  "('a::{zero,plus,uminus,times,inverse}) arith \<Rightarrow> nat \<Rightarrow>
     'a vec4 list \<times> 'a vec3 list \<Rightarrow> 'a vec4 list \<times> 'a vec3 list" where
  "solarPlanet A i st =
     (case st of (bodyPos, bodyVel) \<Rightarrow>
        let angle = flt A (lit A 2 * lit A pi * lit A (real i) / lit A 9);
            pos' = bodyPos[i + 1 := \<lparr> x4 = flt A (flt A (lit A (planetRadii ! i)) * cos_op A angle),
                                      y4 = flt A (flt A (lit A (planetRadii ! i)) * sin_op A angle),
                                      z4 = 0,
                                      w4 = flt A (lit A (1 / 2) + flt A (lit A (planetMasses ! i)) * lit A (1 / 10)) \<rparr>];
            orbitalSpeed = flt A (sqrt_op A (lit A G * w4 (pos' ! 0) / flt A (lit A (planetRadii ! i))) * lit A (1 / 2))
        in (pos',
            bodyVel[i + 1 := \<lparr> x3 = flt A (- orbitalSpeed * sin_op A angle),
                               y3 = flt A (orbitalSpeed * cos_op A angle),
                               z3 = 0 \<rparr>]))"

definition solarDebris ::
  "('a::{zero,plus,uminus,times,inverse}) arith \<Rightarrow> (real \<Rightarrow> real \<Rightarrow> 'g \<Rightarrow> 'a \<times> 'g) \<Rightarrow> nat \<Rightarrow>
     ('a, 'g) bodies \<Rightarrow> ('a, 'g) bodies" where
  "solarDebris A uniform i st =
     (case st of (bodyPos, bodyVel, gen) \<Rightarrow>
        let (angle, g1) = uniform 0 (2 * pi) gen;
            (radius, g2) = uniform (3 / 10) 40 g1;
            (height, g3) = uniform (- (1 / 2)) (1 / 2) g2;
            (m, g4) = uniform (1 / 100) (1 / 10) g3;
            pos' = bodyPos[i := \<lparr> x4 = flt A (radius * cos_op A angle),
                                  y4 = flt A (radius * sin_op A angle),
                                  z4 = height,
                                  w4 = m \<rparr>];
            orbitalSpeed = flt A (sqrt_op A (lit A G * w4 (pos' ! 0) / radius) * lit A (1 / 2))
        in (pos',
            bodyVel[i := \<lparr> x3 = flt A (- orbitalSpeed * sin_op A angle),
                           y3 = flt A (orbitalSpeed * cos_op A angle),
                           z3 = 0 \<rparr>],
            g4))"

definition initializeParticles_n ::
  "('a::{zero,plus,minus,uminus,times,inverse}) arith \<Rightarrow> (real \<Rightarrow> real \<Rightarrow> 'g \<Rightarrow> 'a \<times> 'g) \<Rightarrow> 'g \<Rightarrow> nat \<Rightarrow>
     'a vec4 list \<Rightarrow> 'a vec3 list \<Rightarrow> SimulationType \<Rightarrow> ('a vec4 list \<times> 'a vec3 list) option" where
  "initializeParticles_n A uniform gen n bodyPos bodyVel type =
     (case type of
        RANDOM \<Rightarrow>
          if n \<le> length bodyPos \<and> n \<le> length bodyVel then
            (case fold (randomBody A uniform) [0..<n] (bodyPos, bodyVel, gen) of
               (pos', vel', gen') \<Rightarrow> Some (pos', vel'))
          else None
      | SPIRAL_GALAXY \<Rightarrow>
          if max 1 n \<le> length bodyPos \<and> max 1 n \<le> length bodyVel then
            (case fold (spiralBody A uniform) [1..<n]
                    (bodyPos[0 := \<lparr> x4 = 0, y4 = 0, z4 = 0, w4 = flt A (lit A 100) \<rparr>],
                     bodyVel[0 := \<lparr> x3 = 0, y3 = 0, z3 = 0 \<rparr>], gen) of
               (pos', vel', gen') \<Rightarrow> Some (pos', vel'))
          else None
      | BINARY_SYSTEM \<Rightarrow>
          if max 2 n \<le> length bodyPos \<and> max 2 n \<le> length bodyVel then
            (case fold (binaryPlanet A uniform) [2..<n]
                    (bodyPos[0 := \<lparr> x4 = flt A (lit A (- 2)), y4 = 0, z4 = 0, w4 = flt A (lit A 50) \<rparr>,
                             1 := \<lparr> x4 = flt A (lit A 2), y4 = 0, z4 = 0, w4 = flt A (lit A 50) \<rparr>],
                     bodyVel[0 := \<lparr> x3 = 0, y3 = flt A (lit A (- 1)), z3 = 0 \<rparr>,
                             1 := \<lparr> x3 = 0, y3 = flt A (lit A 1), z3 = 0 \<rparr>], gen) of
               (pos', vel', gen') \<Rightarrow> Some (pos', vel'))
          else None
      | SOLAR_SYSTEM \<Rightarrow>
          if max 10 n \<le> length bodyPos \<and> max 10 n \<le> length bodyVel then
            (case fold (solarPlanet A) [0..<9]
                    (bodyPos[0 := \<lparr> x4 = 0, y4 = 0, z4 = 0, w4 = flt A (lit A 50) \<rparr>],
                     bodyVel[0 := \<lparr> x3 = 0, y3 = 0, z3 = 0 \<rparr>]) of
               (pos1, vel1) \<Rightarrow>
                 (case fold (solarDebris A uniform) [10..<n] (pos1, vel1, gen) of
                    (pos', vel', gen') \<Rightarrow> Some (pos', vel')))
          else None)"

definition initializeParticles ::
  "('a::{zero,plus,minus,uminus,times,inverse}) arith \<Rightarrow> (real \<Rightarrow> real \<Rightarrow> 'g \<Rightarrow> 'a \<times> 'g) \<Rightarrow> 'g \<Rightarrow>
     'a vec4 list \<Rightarrow> 'a vec3 list \<Rightarrow> SimulationType \<Rightarrow> ('a vec4 list \<times> 'a vec3 list) option" where
  "initializeParticles A uniform gen bodyPos bodyVel type =
     initializeParticles_n A uniform gen (nat NUM_PARTICLES) bodyPos bodyVel type"

section \<open>Rounding: monotonicity, representable numbers, overflow\<close>

lemma wellformed_binary [simp]: "wellformed binary32" "wellformed binary64"
  by (simp_all add: wellformed_def binary32_def binary64_def)

lemma nearest_even_of_int [simp]: "nearest_even (of_int n) = n"
  by (simp add: nearest_even_def)

lemma nearest_even_zero [simp]: "nearest_even 0 = 0"
  using nearest_even_of_int [of 0] by simp

lemma nearest_even_bounds: "\<lfloor>r\<rfloor> \<le> nearest_even r" "nearest_even r \<le> \<lfloor>r\<rfloor> + 1"
  by (simp_all add: nearest_even_def Let_def)

lemma nearest_even_mono:
  assumes "r \<le> s"
  shows "nearest_even r \<le> nearest_even s"
proof (cases "\<lfloor>r\<rfloor> = \<lfloor>s\<rfloor>")
  case True
  with assms have "r - of_int \<lfloor>r\<rfloor> \<le> s - of_int \<lfloor>s\<rfloor>"
    by simp
  with True show ?thesis
    by (auto simp: nearest_even_def Let_def)
next
  case False
  with assms have "\<lfloor>r\<rfloor> < \<lfloor>s\<rfloor>"
    by (simp add: floor_mono order.not_eq_order_implies_strict)
  then have "\<lfloor>r\<rfloor> + 1 \<le> \<lfloor>s\<rfloor>"
    by simp
  with nearest_even_bounds(2) [of r] nearest_even_bounds(1) [of s] show ?thesis
    by linarith
qed

lemma nearest_even_nonneg: "0 \<le> r \<Longrightarrow> 0 \<le> nearest_even r"
  using nearest_even_mono [of 0 r] nearest_even_of_int [of 0] by simp

lemma binade_from_spec:
  "e \<le> binade_from a e k \<and> binade_from a e k \<le> e + int k \<and>
   (e < binade_from a e k \<longrightarrow> 2 powi (binade_from a e k) \<le> a) \<and>
   (binade_from a e k < e + int k \<longrightarrow> a < 2 powi (binade_from a e k + 1))"
proof (induction k arbitrary: e)
  case 0
  then show ?case by simp
next
  case (Suc k)
  show ?case
  proof (cases "2 powi (e + 1) \<le> a")
    case True
    with Suc [of "e + 1"] show ?thesis
      by (cases "binade_from a (e + 1) k = e + 1") auto
  next
    case False
    then show ?thesis by auto
  qed
qed

lemma exponent_spec:
  assumes "wellformed fmt"
  shows "emin fmt \<le> exponent fmt a" and "exponent fmt a \<le> emax fmt"
    and "emin fmt < exponent fmt a \<Longrightarrow> 2 powi (exponent fmt a) \<le> a"
    and "exponent fmt a < emax fmt \<Longrightarrow> a < 2 powi (exponent fmt a + 1)"
  using binade_from_spec [of "emin fmt" a "nat (emax fmt - emin fmt)"] assms
  by (auto simp: exponent_def wellformed_def)

lemma exponent_unique:
  assumes w: "wellformed fmt"
    and e: "emin fmt \<le> e" "e \<le> emax fmt"
    and lo: "emin fmt < e \<Longrightarrow> 2 powi e \<le> a"
    and hi: "e < emax fmt \<Longrightarrow> a < 2 powi (e + 1)"
  shows "exponent fmt a = e"
proof (rule ccontr)
  let ?x = "exponent fmt a"
  assume ne: "?x \<noteq> e"
  note s = exponent_spec [OF w, of a]
  show False
  proof (cases "?x < e")
    case True
    with e s have "a < 2 powi (?x + 1)" and "2 powi e \<le> a"
      using lo by auto
    moreover from True have "(2::real) powi (?x + 1) \<le> 2 powi e"
      by (intro power_int_increasing) auto
    ultimately show False by linarith
  next
    case False
    with ne have gt: "e < ?x" by simp
    with e s have "a < 2 powi (e + 1)" and "2 powi ?x \<le> a"
      using hi by auto
    moreover from gt have "(2::real) powi (e + 1) \<le> 2 powi ?x"
      by (intro power_int_increasing) auto
    ultimately show False by linarith
  qed
qed

lemma exponent_mono:
  assumes w: "wellformed fmt" and "a \<le> b"
  shows "exponent fmt a \<le> exponent fmt b"
proof (rule ccontr)
  assume "\<not> exponent fmt a \<le> exponent fmt b"
  then have lt: "exponent fmt b < exponent fmt a" by simp
  note sa = exponent_spec [OF w, of a] and sb = exponent_spec [OF w, of b]
  from lt sa sb have "2 powi (exponent fmt a) \<le> a" "b < 2 powi (exponent fmt b + 1)"
    by auto
  moreover from lt have "(2::real) powi (exponent fmt b + 1) \<le> 2 powi (exponent fmt a)"
    by (intro power_int_increasing) auto
  ultimately show False using assms(2) by linarith
qed

lemma ulp_pos: "0 < ulp fmt a"
  by (simp add: ulp_def)

lemma ulp_nonneg: "0 \<le> ulp fmt a"
  by (simp add: ulp_def)

lemma round_magnitude_nonneg: "0 \<le> a \<Longrightarrow> 0 \<le> round_magnitude fmt a"
proof -
  assume "0 \<le> a"
  then have "0 \<le> a / ulp fmt a"
    using ulp_pos [of fmt a] by (rule divide_nonneg_pos)
  then have "0 \<le> nearest_even (a / ulp fmt a)"
    by (rule nearest_even_nonneg)
  then show ?thesis
    unfolding round_magnitude_def using ulp_nonneg [of fmt a] by simp
qed

text \<open>A number whose quotient by its unit in the last place is an integer is kept.\<close>

lemma round_magnitude_exact:
  assumes "a / ulp fmt a = of_int n"
  shows "round_magnitude fmt a = a"
proof -
  have "round_magnitude fmt a = of_int n * ulp fmt a"
    by (simp add: round_magnitude_def assms)
  also have "\<dots> = a / ulp fmt a * ulp fmt a"
    by (simp add: assms)
  also have "\<dots> = a"
  proof -
    have "ulp fmt a \<noteq> 0"
      using ulp_pos [of fmt a] by linarith
    then show ?thesis
      by simp
  qed
  finally show ?thesis .
qed

lemma round_magnitude_le_grid:
  assumes "a \<le> of_int n * ulp fmt a"
  shows "round_magnitude fmt a \<le> of_int n * ulp fmt a"
proof -
  from assms have "a / ulp fmt a \<le> of_int n"
    using ulp_pos [of fmt a] by (simp add: pos_divide_le_eq)
  then have "nearest_even (a / ulp fmt a) \<le> nearest_even (of_int n)"
    by (rule nearest_even_mono)
  then have "(of_int (nearest_even (a / ulp fmt a)) :: real) \<le> of_int n"
    by simp
  then show ?thesis
    unfolding round_magnitude_def using ulp_nonneg [of fmt a] by (rule mult_right_mono)
qed

lemma round_magnitude_ge_grid:
  assumes "of_int n * ulp fmt a \<le> a"
  shows "of_int n * ulp fmt a \<le> round_magnitude fmt a"
proof -
  from assms have "of_int n \<le> a / ulp fmt a"
    using ulp_pos [of fmt a] by (simp add: pos_le_divide_eq)
  then have "nearest_even (of_int n) \<le> nearest_even (a / ulp fmt a)"
    by (rule nearest_even_mono)
  then have "(of_int n :: real) \<le> of_int (nearest_even (a / ulp fmt a))"
    by simp
  then show ?thesis
    unfolding round_magnitude_def using ulp_nonneg [of fmt a] by (rule mult_right_mono)
qed

lemma binade_grid:
  assumes "wellformed fmt"
  shows "2 powi e = of_int (2 ^ (prec fmt - 1)) * (2 powi (e - int (prec fmt) + 1) :: real)"
    and "2 powi (e + 1) = of_int (2 ^ prec fmt) * (2 powi (e - int (prec fmt) + 1) :: real)"
proof -
  from assms have p: "1 \<le> prec fmt"
    by (simp add: wellformed_def)
  have "(2::real) powi e = 2 powi (int (prec fmt - 1) + (e - int (prec fmt) + 1))"
    using p by (simp add: of_nat_diff)
  also have "\<dots> = 2 powi int (prec fmt - 1) * 2 powi (e - int (prec fmt) + 1)"
    by (rule power_int_add) simp
  finally show "2 powi e = of_int (2 ^ (prec fmt - 1)) * (2 powi (e - int (prec fmt) + 1) :: real)"
    by simp
  have "(2::real) powi (e + 1) = 2 powi (int (prec fmt) + (e - int (prec fmt) + 1))"
    by simp
  also have "\<dots> = 2 powi int (prec fmt) * 2 powi (e - int (prec fmt) + 1)"
    by (rule power_int_add) simp
  finally show "2 powi (e + 1) = of_int (2 ^ prec fmt) * (2 powi (e - int (prec fmt) + 1) :: real)"
    by simp
qed

lemma binade_ulp:
  assumes "wellformed fmt"
  shows "2 powi (exponent fmt a) = of_int (2 ^ (prec fmt - 1)) * ulp fmt a"
    and "2 powi (exponent fmt a + 1) = of_int (2 ^ prec fmt) * ulp fmt a"
  unfolding ulp_def by (rule binade_grid [OF assms])+

lemma round_magnitude_binade:
  assumes w: "wellformed fmt"
  shows "emin fmt < exponent fmt a \<Longrightarrow> 2 powi (exponent fmt a) \<le> round_magnitude fmt a"
    and "a < 2 powi (exponent fmt a + 1) \<Longrightarrow> round_magnitude fmt a \<le> 2 powi (exponent fmt a + 1)"
proof -
  assume "emin fmt < exponent fmt a"
  then have "2 powi (exponent fmt a) \<le> a"
    by (rule exponent_spec(3) [OF w])
  then have "of_int (2 ^ (prec fmt - 1)) * ulp fmt a \<le> a"
    by (simp only: binade_ulp(1) [OF w])
  then have "of_int (2 ^ (prec fmt - 1)) * ulp fmt a \<le> round_magnitude fmt a"
    by (rule round_magnitude_ge_grid)
  then show "2 powi (exponent fmt a) \<le> round_magnitude fmt a"
    by (simp only: binade_ulp(1) [OF w])
next
  assume "a < 2 powi (exponent fmt a + 1)"
  then have "a \<le> 2 powi (exponent fmt a + 1)"
    by simp
  then have "a \<le> of_int (2 ^ prec fmt) * ulp fmt a"
    by (simp only: binade_ulp(2) [OF w])
  then have "round_magnitude fmt a \<le> of_int (2 ^ prec fmt) * ulp fmt a"
    by (rule round_magnitude_le_grid)
  then show "round_magnitude fmt a \<le> 2 powi (exponent fmt a + 1)"
    by (simp only: binade_ulp(2) [OF w])
qed

lemma round_magnitude_mono:
  assumes w: "wellformed fmt" and ab: "a \<le> b"
  shows "round_magnitude fmt a \<le> round_magnitude fmt b"
proof (cases "exponent fmt a = exponent fmt b")
  case True
  then have u: "ulp fmt a = ulp fmt b"
    by (simp add: ulp_def)
  from ab have "a / ulp fmt b \<le> b / ulp fmt b"
    using ulp_nonneg [of fmt b] by (rule divide_right_mono)
  then have "nearest_even (a / ulp fmt b) \<le> nearest_even (b / ulp fmt b)"
    by (rule nearest_even_mono)
  then have "(of_int (nearest_even (a / ulp fmt b)) :: real) \<le> of_int (nearest_even (b / ulp fmt b))"
    by simp
  then show ?thesis
    unfolding round_magnitude_def u using ulp_nonneg [of fmt b] by (rule mult_right_mono)
next
  case False
  with exponent_mono [OF w ab] have lt: "exponent fmt a < exponent fmt b"
    by simp
  with exponent_spec(2) [OF w, of b] have "exponent fmt a < emax fmt"
    by simp
  then have "a < 2 powi (exponent fmt a + 1)"
    by (rule exponent_spec(4) [OF w])
  then have "round_magnitude fmt a \<le> 2 powi (exponent fmt a + 1)"
    by (rule round_magnitude_binade(2) [OF w])
  also from lt have "(2::real) powi (exponent fmt a + 1) \<le> 2 powi (exponent fmt b)"
    by (intro power_int_increasing) auto
  also from lt exponent_spec(1) [OF w, of a] have "emin fmt < exponent fmt b"
    by simp
  then have "2 powi (exponent fmt b) \<le> round_magnitude fmt b"
    by (rule round_magnitude_binade(1) [OF w])
  finally show ?thesis .
qed

lemma round_magnitude_int_pow:
  assumes w: "wellformed fmt"
    and m: "0 \<le> m" "m < 2 ^ prec fmt"
    and k: "emin fmt - int (prec fmt) + 1 \<le> k"
  shows "round_magnitude fmt (of_int m * 2 powi k) = of_int m * 2 powi k"
proof -
  let ?a = "of_int m * 2 powi k :: real"
  let ?e = "exponent fmt ?a"
  let ?j = "k - (?e - int (prec fmt) + 1)"
  have j: "0 \<le> ?j"
  proof (cases "emin fmt < ?e")
    case False
    with exponent_spec(1) [OF w, of ?a] k show ?thesis
      by simp
  next
    case True
    then have "2 powi ?e \<le> ?a"
      by (rule exponent_spec(3) [OF w])
    also from m(2) have "(of_int m :: real) < of_int (2 ^ prec fmt)"
      by (simp only: of_int_less_iff)
    then have "(of_int m :: real) < 2 ^ prec fmt"
      by simp
    then have "?a < 2 ^ prec fmt * 2 powi k"
      by (simp add: mult_strict_right_mono)
    also have "(2::real) ^ prec fmt * 2 powi k = 2 powi (int (prec fmt) + k)"
      by (simp add: power_int_add)
    finally have "(2::real) powi ?e < 2 powi (int (prec fmt) + k)" .
    then have "?e < int (prec fmt) + k"
    proof (rule contrapos_pp)
      assume "\<not> ?e < int (prec fmt) + k"
      then have "(2::real) powi (int (prec fmt) + k) \<le> 2 powi ?e"
        by (intro power_int_increasing) auto
      then show "\<not> (2::real) powi ?e < 2 powi (int (prec fmt) + k)"
        by simp
    qed
    then show ?thesis
      by simp
  qed
  have "?a / ulp fmt ?a = of_int m * (2 powi k / 2 powi (?e - int (prec fmt) + 1))"
    by (simp add: ulp_def)
  also have "2 powi k / 2 powi (?e - int (prec fmt) + 1) = (2::real) powi ?j"
    by (simp add: power_int_diff)
  also have "\<dots> = 2 ^ nat ?j"
    using j by (simp add: power_int_nonneg_exp)
  finally have "?a / ulp fmt ?a = of_int (m * 2 ^ nat ?j)"
    by simp
  then show ?thesis
    by (rule round_magnitude_exact)
qed

lemma round_real_mono:
  assumes w: "wellformed fmt" and "x \<le> y"
  shows "round_real fmt x \<le> round_real fmt y"
proof -
  consider "0 \<le> x" | "y < 0" | "x < 0" "0 \<le> y"
    by linarith
  then show ?thesis
  proof cases
    case 1
    with assms(2) show ?thesis
      by (simp add: round_real_def round_magnitude_mono [OF w])
  next
    case 2
    with assms(2) have "- y \<le> - x" "x < 0"
      by simp_all
    with 2 show ?thesis
      by (simp add: round_real_def round_magnitude_mono [OF w])
  next
    case 3
    then have "0 \<le> round_magnitude fmt (- x)" "0 \<le> round_magnitude fmt y"
      by (simp_all add: round_magnitude_nonneg)
    with 3 show ?thesis
      by (simp add: round_real_def)
  qed
qed

lemma round_real_minus: "round_real fmt (- x) = - round_real fmt x"
proof -
  have "round_magnitude fmt 0 = 0"
    by (simp add: round_magnitude_def)
  then show ?thesis
    by (cases "x = 0") (auto simp: round_real_def)
qed

lemma representable_minus: "representable fmt (- c) = representable fmt c"
  by (auto simp: representable_def round_real_minus)

lemma largest_less: "largest fmt < 2 powi (emax fmt + 1)"
proof -
  have "largest fmt < 2 ^ prec fmt * 2 powi (emax fmt - int (prec fmt) + 1)"
    unfolding largest_def by (intro mult_strict_right_mono) simp_all
  also have "\<dots> = 2 powi int (prec fmt) * 2 powi (emax fmt - int (prec fmt) + 1)"
    by simp
  also have "\<dots> = 2 powi (int (prec fmt) + (emax fmt - int (prec fmt) + 1))"
    by (rule power_int_add [symmetric]) simp
  finally show ?thesis
    by simp
qed

lemma largest_nonneg: "0 \<le> largest fmt"
  by (simp add: largest_def)

lemma representable_int_pow:
  assumes w: "wellformed fmt"
    and m: "\<bar>m\<bar> < 2 ^ prec fmt"
    and k: "emin fmt - int (prec fmt) + 1 \<le> k" "k \<le> emax fmt - int (prec fmt) + 1"
  shows "representable fmt (of_int m * 2 powi k)"
proof -
  have pos: "representable fmt (of_int n * 2 powi k)" if n: "0 \<le> n" "n < 2 ^ prec fmt" for n
  proof -
    have a: "0 \<le> (of_int n * 2 powi k :: real)"
      using n(1) by simp
    then have "round_real fmt (of_int n * 2 powi k) = of_int n * 2 powi k"
      by (simp add: round_real_def round_magnitude_int_pow [OF w n k(1)])
    moreover have "of_int n * 2 powi k \<le> largest fmt"
      unfolding largest_def
    proof (rule mult_mono)
      from n(2) have "n \<le> 2 ^ prec fmt - 1"
        by simp
      then have "(of_int n :: real) \<le> of_int (2 ^ prec fmt - 1)"
        by (simp only: of_int_le_iff)
      then show "(of_int n :: real) \<le> 2 ^ prec fmt - 1"
        by simp
      show "(2::real) powi k \<le> 2 powi (emax fmt - int (prec fmt) + 1)"
        using k(2) by (intro power_int_increasing) auto
      show "(0::real) \<le> 2 ^ prec fmt - 1"
        by simp
      show "(0::real) \<le> 2 powi k"
        by simp
    qed
    ultimately show ?thesis
      using a by (simp add: representable_def)
  qed
  show ?thesis
  proof (cases "0 \<le> m")
    case True
    with m pos [of m] show ?thesis
      by simp
  next
    case False
    with m pos [of "- m"] have "representable fmt (of_int (- m) * 2 powi k)"
      by simp
    then have "representable fmt (- (of_int m * 2 powi k))"
      by simp
    then show ?thesis
      by (simp only: representable_minus)
  qed
qed

lemma round_to_representable: "representable fmt c \<Longrightarrow> round_to fmt c = Finite c"
  by (auto simp: representable_def round_to_def Let_def)

lemma round_to_between:
  assumes w: "wellformed fmt"
    and lo: "representable fmt lo" and hi: "representable fmt hi"
    and x: "lo \<le> x" "x \<le> hi"
  shows "between lo hi (round_to fmt x)"
proof -
  from round_real_mono [OF w x(1)] lo have l: "lo \<le> round_real fmt x"
    by (simp add: representable_def)
  from round_real_mono [OF w x(2)] hi have h: "round_real fmt x \<le> hi"
    by (simp add: representable_def)
  from lo hi have "- largest fmt \<le> lo" "hi \<le> largest fmt"
    by (auto simp: representable_def)
  with l h show ?thesis
    by (simp add: round_to_def Let_def between_def)
qed

lemma round_to_at_least:
  assumes w: "wellformed fmt" and lo: "representable fmt lo" and x: "lo \<le> x"
  shows "round_to fmt x = PlusInf \<or> (\<exists>r. round_to fmt x = Finite r \<and> lo \<le> r)"
proof -
  from round_real_mono [OF w x] lo have l: "lo \<le> round_real fmt x"
    by (simp add: representable_def)
  from lo have "- largest fmt \<le> lo"
    by (auto simp: representable_def)
  with l show ?thesis
    by (simp add: round_to_def Let_def)
qed

lemma round_to_overflow:
  assumes w: "wellformed fmt" and x: "2 powi (emax fmt + 1) \<le> x"
  shows "round_to fmt x = PlusInf" and "round_to fmt (- x) = MinusInf"
proof -
  have x0: "0 < x"
    using x zero_less_power_int [of "2::real" "emax fmt + 1"] by linarith
  from w have "emin fmt \<le> emax fmt"
    by (simp add: wellformed_def)
  moreover have "(2::real) powi emax fmt \<le> 2 powi (emax fmt + 1)"
    by (intro power_int_increasing) auto
  with x have "2 powi emax fmt \<le> x"
    by linarith
  ultimately have e: "exponent fmt x = emax fmt"
    by (intro exponent_unique [OF w]) auto
  from x have "of_int (2 ^ prec fmt) * ulp fmt x \<le> x"
    using binade_ulp(2) [OF w, of x] by (simp only: e)
  then have "of_int (2 ^ prec fmt) * ulp fmt x \<le> round_magnitude fmt x"
    by (rule round_magnitude_ge_grid)
  then have "2 powi (emax fmt + 1) \<le> round_magnitude fmt x"
    using binade_ulp(2) [OF w, of x] by (simp only: e)
  with largest_less [of fmt] have big: "largest fmt < round_magnitude fmt x"
    by linarith
  with x0 show "round_to fmt x = PlusInf"
    by (simp add: round_to_def round_real_def Let_def)
  from big x0 largest_nonneg [of fmt] show "round_to fmt (- x) = MinusInf"
    by (simp add: round_to_def round_real_def Let_def)
qed

lemma round_to_zero [simp]: "round_to fmt 0 = Finite 0"
  using largest_nonneg [of fmt]
  by (simp add: round_to_def round_real_def round_magnitude_def Let_def not_less)

lemma representable32_int: "\<bar>n\<bar> < 16777216 \<Longrightarrow> representable binary32 (of_int n)"
  using representable_int_pow [OF wellformed_binary(1), of n 0] by (simp add: binary32_def)

lemma representable64_int: "\<bar>n\<bar> < 9007199254740992 \<Longrightarrow> representable binary64 (of_int n)"
  using representable_int_pow [OF wellformed_binary(2), of n 0] by (simp add: binary64_def)

lemma representable32_pow2: "- 149 \<le> k \<Longrightarrow> k \<le> 127 \<Longrightarrow> representable binary32 (2 powi k)"
proof (cases "k \<le> 104")
  case True
  assume "- 149 \<le> k"
  with True representable_int_pow [OF wellformed_binary(1), of 1 k] show ?thesis
    by (simp add: binary32_def)
next
  case False
  assume k: "k \<le> 127"
  let ?j = "nat (k - 104)"
  from False k have j: "?j < 24"
    by simp
  then have "(2::int) ^ ?j < 2 ^ 24"
    by (intro power_strict_increasing) simp_all
  with representable_int_pow [OF wellformed_binary(1), of "2 ^ ?j" 104]
  have "representable binary32 (of_int (2 ^ ?j) * 2 powi 104)"
    by (simp add: binary32_def)
  moreover have "(of_int (2 ^ ?j) * 2 powi 104 :: real) = 2 powi int ?j * 2 powi 104"
    by (simp only: power_int_of_nat of_int_power of_int_numeral)
  moreover have "(2::real) powi int ?j * 2 powi 104 = 2 powi (int ?j + 104)"
    by (rule power_int_add [symmetric]) simp
  moreover from False have "int ?j + 104 = k"
    by simp
  ultimately show ?thesis
    by simp
qed

lemma round32_examples:
  "round_to binary32 1 = Finite 1" "round_to binary32 (- 1) = Finite (- 1)"
  "round_to binary32 25 = Finite 25" "round_to binary32 (2 ^ 127) = Finite (2 ^ 127)"
  using representable32_int [of 1] representable32_int [of "- 1"] representable32_int [of 25]
    representable32_pow2 [of 127]
  by (simp_all add: round_to_representable)

lemma round32_overflow_example: "round_to binary32 (- (2 ^ 127) - 2 ^ 127) = MinusInf"
  using round_to_overflow(2) [OF wellformed_binary(1), of "2 ^ 128"] by (simp add: binary32_def)

section \<open>The two arithmetics\<close>

lemma real_ops:
  "fadd real_arith a b = a + b" "fsub real_arith a b = a - b" "fmul real_arith a b = a * b"
  "flt real_arith a = a" "sqrt_op real_arith = sqrt" "lit real_arith a = a" "flit real_arith a = a"
  by (simp_all add: real_arith_def)

lemma ieee_ops:
  "fadd ieee_arith a b = ieee_add binary32 a b"
  "fsub ieee_arith a b = ieee_add binary32 a (ieee_neg b)"
  "fmul ieee_arith a b = ieee_mul binary32 a b"
  "flt ieee_arith a = to_float a"
  "sqrt_op ieee_arith a = ieee_sqrt binary64 a"
  "lit ieee_arith r = round_to binary64 r"
  "flit ieee_arith r = round_to binary32 r"
  by (simp_all add: ieee_arith_def)

text \<open>Small integers are numbers of both formats: operations on them are exact.\<close>

lemma round_to_small:
  "numeral k < (16777216::int) \<Longrightarrow> round_to binary32 (numeral k) = Finite (numeral k)"
  "numeral k < (16777216::int) \<Longrightarrow> round_to binary32 (- numeral k) = Finite (- numeral k)"
  "round_to binary32 1 = Finite 1" "round_to binary32 (- 1) = Finite (- 1)"
  "numeral k < (9007199254740992::int) \<Longrightarrow> round_to binary64 (numeral k) = Finite (numeral k)"
  "numeral k < (9007199254740992::int) \<Longrightarrow> round_to binary64 (- numeral k) = Finite (- numeral k)"
  "round_to binary64 1 = Finite 1" "round_to binary64 (- 1) = Finite (- 1)"
  using representable32_int [of "numeral k"] representable32_int [of "- numeral k"]
    representable32_int [of 1] representable32_int [of "- 1"]
    representable64_int [of "numeral k"] representable64_int [of "- numeral k"]
    representable64_int [of 1] representable64_int [of "- 1"]
  by (simp_all add: round_to_representable)

lemma representable_zero: "representable fmt 0"
  using largest_nonneg [of fmt]
  by (simp add: representable_def round_real_def round_magnitude_def)

lemma representable32_power: "k \<le> 127 \<Longrightarrow> representable binary32 (2 ^ k)"
  using representable32_pow2 [of "int k"] by (simp add: power_int_of_nat)

lemma representable32_inverse_power: "k \<le> 149 \<Longrightarrow> representable binary32 (1 / 2 ^ k)"
  using representable32_pow2 [of "- int k"] by (simp add: power_int_minus divide_inverse)

lemma representable32_multiple:
  assumes "n < 2 ^ 24" and "t \<le> 104"
  shows "representable binary32 (real n * 2 ^ t)"
proof -
  from assms(1) have "\<bar>int n\<bar> < 2 ^ 24"
    by (simp add: of_nat_less_numeral_power_cancel_iff)
  with assms(2) representable_int_pow [OF wellformed_binary(1), of "int n" "int t"]
  show ?thesis
    by (simp add: binary32_def power_int_of_nat)
qed

lemma representable64_power: "k \<le> 971 \<Longrightarrow> representable binary64 (2 ^ k)"
  using representable_int_pow [OF wellformed_binary(2), of 1 "int k"]
  by (simp add: binary64_def power_int_of_nat)

lemma representable64_inverse_power: "k \<le> 1074 \<Longrightarrow> representable binary64 (1 / 2 ^ k)"
  using representable_int_pow [OF wellformed_binary(2), of 1 "- int k"]
  by (simp add: binary64_def power_int_minus divide_inverse)

section \<open>Bounds through the operations\<close>

text \<open>
  Rounding is monotone and leaves the numbers of the format in place. So a result whose
  exact value lies between two numbers of the format lies between them after rounding.
\<close>

lemma between_Finite [simp]:
  "between lo hi (Finite r) \<longleftrightarrow> lo \<le> r \<and> r \<le> hi"
  "\<not> between lo hi PlusInf" "\<not> between lo hi MinusInf" "\<not> between lo hi NaN"
  by (simp_all add: between_def)

lemma between_cases:
  assumes "between lo hi v"
  obtains r where "v = Finite r" and "lo \<le> r" and "r \<le> hi"
  using assms by (cases v) simp_all

lemma between_isfinite: "between lo hi v \<Longrightarrow> isfinite v"
  by (cases v) simp_all

lemma between_weaken: "between lo hi v \<Longrightarrow> lo' \<le> lo \<Longrightarrow> hi \<le> hi' \<Longrightarrow> between lo' hi' v"
  by (cases v) simp_all

lemma between_add:
  assumes "wellformed fmt" and "between l1 h1 a" and "between l2 h2 b"
    and "representable fmt (l1 + l2)" and "representable fmt (h1 + h2)"
  shows "between (l1 + l2) (h1 + h2) (ieee_add fmt a b)"
proof -
  from assms(2) obtain x where a: "a = Finite x" and x: "l1 \<le> x" "x \<le> h1"
    by (rule between_cases)
  from assms(3) obtain y where b: "b = Finite y" and y: "l2 \<le> y" "y \<le> h2"
    by (rule between_cases)
  from x y have "l1 + l2 \<le> x + y" "x + y \<le> h1 + h2"
    by linarith+
  with round_to_between [OF assms(1,4,5), of "x + y"] show ?thesis
    by (simp add: a b)
qed

lemma between_neg: "between lo hi a \<Longrightarrow> between (- hi) (- lo) (ieee_neg a)"
  by (cases a) simp_all

lemma between_sub:
  assumes "wellformed fmt" and "between (- c) c a" and "between (- c) c b"
    and "representable fmt (c + c)"
  shows "between (- (c + c)) (c + c) (ieee_add fmt a (ieee_neg b))"
proof -
  from assms(3) have "between (- c) (- (- c)) (ieee_neg b)"
    by (rule between_neg)
  then have n: "between (- c) c (ieee_neg b)"
    by simp
  from assms(4) have "representable fmt (- c + - c)"
    by (simp add: representable_minus flip: minus_add_distrib)
  from between_add [OF assms(1,2) n this assms(4)] show ?thesis
    by simp
qed

lemma between_mul:
  assumes "wellformed fmt" and "between (- c) c a" and "between (- d) d b"
    and "representable fmt (c * d)"
  shows "between (- (c * d)) (c * d) (ieee_mul fmt a b)"
proof -
  from assms(2) obtain x where a: "a = Finite x" and x: "- c \<le> x" "x \<le> c"
    by (rule between_cases)
  from assms(3) obtain y where b: "b = Finite y" and y: "- d \<le> y" "y \<le> d"
    by (rule between_cases)
  from x y have "\<bar>x\<bar> \<le> c" "\<bar>y\<bar> \<le> d"
    by linarith+
  then have "\<bar>x\<bar> * \<bar>y\<bar> \<le> c * d"
    by (intro mult_mono) simp_all
  then have "\<bar>x * y\<bar> \<le> c * d"
    by (simp add: abs_mult)
  then have "- (c * d) \<le> x * y" "x * y \<le> c * d"
    by linarith+
  with round_to_between [OF assms(1) representable_minus [THEN iffD2, OF assms(4)] assms(4), of "x * y"]
  show ?thesis
    by (simp add: a b)
qed

lemma between_mul_nonneg:
  assumes "wellformed fmt" and "between l1 h1 a" and "between l2 h2 b"
    and "0 \<le> l1" and "0 \<le> l2"
    and "representable fmt (l1 * l2)" and "representable fmt (h1 * h2)"
  shows "between (l1 * l2) (h1 * h2) (ieee_mul fmt a b)"
proof -
  from assms(2) obtain x where a: "a = Finite x" and x: "l1 \<le> x" "x \<le> h1"
    by (rule between_cases)
  from assms(3) obtain y where b: "b = Finite y" and y: "l2 \<le> y" "y \<le> h2"
    by (rule between_cases)
  from x y assms(4,5) have "l1 * l2 \<le> x * y"
    by (intro mult_mono) simp_all
  moreover from x y assms(4,5) have "x * y \<le> h1 * h2"
    by (intro mult_mono) simp_all
  ultimately show ?thesis
    using round_to_between [OF assms(1,6,7), of "x * y"] by (simp add: a b)
qed

lemma between_square:
  assumes "wellformed fmt" and "between (- c) c a" and "representable fmt (c * c)"
  shows "between 0 (c * c) (ieee_mul fmt a a)"
proof -
  from assms(2) obtain x where a: "a = Finite x" and x: "- c \<le> x" "x \<le> c"
    by (rule between_cases)
  from x have "\<bar>x\<bar> \<le> c"
    by linarith
  then have "\<bar>x\<bar> * \<bar>x\<bar> \<le> c * c"
    by (intro mult_mono) simp_all
  then have "x * x \<le> c * c"
    by simp
  moreover have "0 \<le> x * x"
    by simp
  ultimately show ?thesis
    using round_to_between [OF assms(1) representable_zero assms(3), of "x * x"] by (simp add: a)
qed

lemma between_sqrt:
  assumes "wellformed fmt" and "between lo hi a" and "0 \<le> lo"
    and "representable fmt (sqrt lo)" and "representable fmt (sqrt hi)"
  shows "between (sqrt lo) (sqrt hi) (ieee_sqrt fmt a)"
proof -
  from assms(2) obtain x where a: "a = Finite x" and x: "lo \<le> x" "x \<le> hi"
    by (rule between_cases)
  from x have "sqrt lo \<le> sqrt x" "sqrt x \<le> sqrt hi"
    by simp_all
  with round_to_between [OF assms(1,4,5), of "sqrt x"] x(1) assms(3) show ?thesis
    by (simp add: a)
qed

lemma between_inverse:
  assumes "wellformed fmt" and "between lo hi q" and "0 < lo" and "representable fmt (1 / lo)"
  shows "between 0 (1 / lo) (ieee_div fmt (Finite 1) q)"
proof -
  from assms(2) obtain x where q: "q = Finite x" and x: "lo \<le> x" "x \<le> hi"
    by (rule between_cases)
  from x(1) assms(3) have x0: "0 < x"
    by linarith
  then have "0 \<le> 1 / x"
    by simp
  moreover from x(1) assms(3) have "1 / x \<le> 1 / lo"
    by (simp add: frac_le)
  ultimately show ?thesis
    using round_to_between [OF assms(1) representable_zero assms(4), of "1 / x"] x0
    by (simp add: q)
qed

lemma between_to_float:
  assumes "between lo hi a" and "representable binary32 lo" and "representable binary32 hi"
  shows "between lo hi (to_float a)"
proof -
  from assms(1) obtain x where a: "a = Finite x" and x: "lo \<le> x" "x \<le> hi"
    by (rule between_cases)
  with round_to_between [OF wellformed_binary(1) assms(2,3), of x] show ?thesis
    by simp
qed

section \<open>Rounding: examples\<close>

text \<open>
  The rounding of a magnitude whose binade is known. The examples are the literal \<^verbatim>\<open>0.1f\<close>,
  an underflow to zero, and the two sides of the overflow threshold of \<^verbatim>\<open>float\<close>, which
  is half a unit in the last place above the largest finite number.
\<close>

lemma round_to_binade:
  assumes w: "wellformed fmt" and a: "0 \<le> a"
    and e: "emin fmt \<le> e" "e \<le> emax fmt"
    and lo: "emin fmt < e \<Longrightarrow> 2 powi e \<le> a"
    and hi: "e < emax fmt \<Longrightarrow> a < 2 powi (e + 1)"
  shows "round_to fmt a =
           (let u = 2 powi (e - int (prec fmt) + 1); r = of_int (nearest_even (a / u)) * u
            in if largest fmt < r then PlusInf else Finite r)"
proof -
  have "exponent fmt a = e"
    using w e lo hi by (rule exponent_unique)
  then have r: "round_real fmt a = of_int (nearest_even (a / 2 powi (e - int (prec fmt) + 1)))
                  * 2 powi (e - int (prec fmt) + 1)"
    using a by (simp add: round_real_def round_magnitude_def ulp_def)
  have "0 \<le> round_real fmt a"
    using a round_magnitude_nonneg [OF a, of fmt] by (simp add: round_real_def)
  with largest_nonneg [of fmt] have "\<not> round_real fmt a < - largest fmt"
    by linarith
  then show ?thesis
    by (simp add: round_to_def Let_def r)
qed

lemma softening_value: "flit ieee_arith (1 / 10) = Finite (13421773 / 134217728)"
  unfolding ieee_ops
  by (subst round_to_binade [OF wellformed_binary(1), where e = "- 4"])
     (simp_all add: binary32_def largest_def nearest_even_def Let_def power_int_minus)

lemma underflow_example: "round_to binary32 (1 / 2 ^ 100 * (1 / 2 ^ 100)) = Finite 0"
  by (subst round_to_binade [OF wellformed_binary(1), where e = "- 126"])
     (simp_all add: binary32_def largest_def nearest_even_def Let_def power_int_minus)

lemma overflow_threshold:
  "round_to binary32 (largest binary32 + 2 ^ 100) = Finite (largest binary32)"
  "round_to binary32 (largest binary32 + 2 ^ 103) = PlusInf"
  by (subst round_to_binade [OF wellformed_binary(1), where e = 127];
      simp add: binary32_def largest_def nearest_even_def Let_def power_int_minus)+

section \<open>Arrays updated in a loop\<close>

lemma length_fold_update:
  "length (fold (\<lambda>i acc. acc[i := f i acc]) is xs) = length xs"
  by (induction "is" arbitrary: xs) simp_all

lemma nth_fold_update_upt:
  "k < length xs \<Longrightarrow>
   fold (\<lambda>i acc. acc[i := f i (acc ! i)]) [0..<n] xs ! k = (if k < n then f k (xs ! k) else xs ! k)"
proof (induction n arbitrary: k)
  case 0
  then show ?case by simp
next
  case (Suc n)
  have len: "length (fold (\<lambda>i acc. acc[i := f i (acc ! i)]) [0..<n] xs) = length xs"
    by (rule length_fold_update)
  show ?case
  proof (cases "k = n")
    case True
    with Suc len show ?thesis by simp
  next
    case False
    with Suc len show ?thesis by (auto simp: nth_list_update)
  qed
qed

section \<open>The direct force evaluator: what the loops compute\<close>

lemma pairInteraction_update:
  "i < length acc \<Longrightarrow>
   pairInteraction A bodyPos i j acc =
     acc[i := (if i = j then acc ! i else accumulate A (acc ! i) (pairAccel A bodyPos i j))]"
  by (cases "acc ! i") (simp add: pairInteraction_def pairAccel_def accumulate_def Let_def)

lemma fold_pairInteraction:
  "i < length acc \<Longrightarrow>
   fold (\<lambda>j a. pairInteraction A bodyPos i j a) js acc =
     acc[i := fold (\<lambda>j a. if i = j then a else accumulate A a (pairAccel A bodyPos i j)) js (acc ! i)]"
proof (induction js arbitrary: acc)
  case Nil
  then show ?case by simp
next
  case (Cons j js)
  then show ?case
    by (simp add: pairInteraction_update)
qed

lemma length_clearAccelerations: "length (clearAccelerations n acc) = length acc"
  unfolding clearAccelerations_def by (rule length_fold_update)

lemma nth_clearAccelerations:
  "k < length acc \<Longrightarrow>
   clearAccelerations n acc ! k = (if k < n then \<lparr> x3 = 0, y3 = 0, z3 = 0 \<rparr> else acc ! k)"
proof -
  have upd: "\<And>v::'a vec3. v\<lparr> x3 := 0, y3 := 0, z3 := 0 \<rparr> = \<lparr> x3 = 0, y3 = 0, z3 = 0 \<rparr>"
    by simp
  assume "k < length acc"
  then show ?thesis
    unfolding clearAccelerations_def
    using nth_fold_update_upt [where f = "\<lambda>i v. v\<lparr> x3 := 0, y3 := 0, z3 := 0 \<rparr>"
        and xs = acc and k = k and n = n]
    by (simp add: upd)
qed

lemma interactions_eq:
  assumes "n \<le> length acc"
  shows "fold (\<lambda>i acc. fold (\<lambda>j acc'. pairInteraction A bodyPos i j acc') [0..<m] acc) [0..<n] acc
       = fold (\<lambda>i acc. acc[i := fold (\<lambda>j a. if i = j then a
                                         else accumulate A a (pairAccel A bodyPos i j))
                                  [0..<m] (acc ! i)]) [0..<n] acc"
  using assms
proof (induction n)
  case 0
  then show ?case by simp
next
  case (Suc n)
  then show ?case
    by (simp add: fold_pairInteraction length_fold_update)
qed

lemma calculateAccelerations_Some:
  "nat numParticles \<le> length bodyPos \<Longrightarrow> nat numParticles \<le> length bodyAccel \<Longrightarrow>
   \<exists>acc. calculateAccelerations A bodyPos bodyAccel numParticles = Some acc"
  by (simp add: calculateAccelerations_def Let_def)

lemma calculateAccelerations_nth:
  assumes "calculateAccelerations A bodyPos bodyAccel numParticles = Some acc"
    and "k < length bodyAccel"
  shows "acc ! k = (if k < nat numParticles then accelOn A bodyPos (nat numParticles) k
                    else bodyAccel ! k)"
    and "length acc = length bodyAccel"
proof -
  let ?n = "nat numParticles"
  let ?g = "\<lambda>i v. fold (\<lambda>j a. if i = j then a else accumulate A a (pairAccel A bodyPos i j))
                     [0..<?n] v"
  let ?c = "clearAccelerations ?n bodyAccel"
  from assms(1) have n: "?n \<le> length bodyAccel"
    and acc: "acc = fold (\<lambda>i acc. fold (\<lambda>j acc'. pairInteraction A bodyPos i j acc') [0..<?n] acc)
                      [0..<?n] ?c"
    by (auto simp: calculateAccelerations_def Let_def split: if_splits)
  have acc': "acc = fold (\<lambda>i acc. acc[i := ?g i (acc ! i)]) [0..<?n] ?c"
    unfolding acc using n by (intro interactions_eq) (simp add: length_clearAccelerations)
  show "length acc = length bodyAccel"
    unfolding acc' by (simp add: length_fold_update length_clearAccelerations)
  have "acc ! k = (if k < ?n then ?g k (?c ! k) else ?c ! k)"
    unfolding acc' using assms(2)
    by (intro nth_fold_update_upt) (simp add: length_clearAccelerations)
  then show "acc ! k = (if k < ?n then accelOn A bodyPos ?n k else bodyAccel ! k)"
    using assms(2) by (simp add: nth_clearAccelerations accelOn_def)
qed

text \<open>
  C10. With one body, or with none, the evaluator returns, and the acceleration of every
  body below \<open>numParticles\<close> is exactly zero: the only pair of the single body is the
  skipped pair \<open>i = j\<close>. This holds in any arithmetic.
\<close>

theorem lone_body_zero_acceleration:
  assumes "numParticles \<le> 1"
    and "nat numParticles \<le> length bodyPos" and "nat numParticles \<le> length bodyAccel"
  shows "\<exists>acc. calculateAccelerations A bodyPos bodyAccel numParticles = Some acc \<and>
           (\<forall>i < nat numParticles. acc ! i = \<lparr> x3 = 0, y3 = 0, z3 = 0 \<rparr>)"
proof -
  from assms(2,3) obtain acc
    where acc: "calculateAccelerations A bodyPos bodyAccel numParticles = Some acc"
    using calculateAccelerations_Some by blast
  have "acc ! i = \<lparr> x3 = 0, y3 = 0, z3 = 0 \<rparr>" if i: "i < nat numParticles" for i
  proof -
    from i assms(1) have n1: "nat numParticles = 1" and i0: "i = 0"
      by linarith+
    from i assms(3) have "i < length bodyAccel"
      by simp
    with acc i have "acc ! i = accelOn A bodyPos (nat numParticles) i"
      by (simp add: calculateAccelerations_nth(1))
    then show ?thesis
      by (simp add: n1 i0 accelOn_def)
  qed
  with acc show ?thesis
    by blast
qed

theorem lone_body_zero_acceleration_witness:
  "(1::int) \<le> 1 \<and>
   nat 1 \<le> length [\<lparr> x4 = Finite 1, y4 = Finite 2, z4 = Finite 3, w4 = Finite 5 \<rparr>] \<and>
   nat 1 \<le> length [\<lparr> x3 = Finite 7, y3 = NaN, z3 = PlusInf \<rparr>] \<and>
   (\<exists>acc. calculateAccelerations ieee_arith
            [\<lparr> x4 = Finite 1, y4 = Finite 2, z4 = Finite 3, w4 = Finite 5 \<rparr>]
            [\<lparr> x3 = Finite 7, y3 = NaN, z3 = PlusInf \<rparr>] 1 = Some acc \<and>
          (\<forall>i < nat 1. acc ! i = \<lparr> x3 = 0, y3 = 0, z3 = 0 \<rparr>))"
  using lone_body_zero_acceleration [of 1
      "[\<lparr> x4 = Finite 1, y4 = Finite 2, z4 = Finite 3, w4 = Finite 5 \<rparr>]"
      "[\<lparr> x3 = Finite 7, y3 = NaN, z3 = PlusInf \<rparr>]" ieee_arith]
  by simp

section \<open>The time integrator: one step\<close>

lemma updateParticle_update:
  "i < length bodyPos \<Longrightarrow> i < length bodyVel \<Longrightarrow>
   updateParticle A dt bodyAccel i (bodyPos, bodyVel) =
     (bodyPos[i := stepPos A dt (bodyPos ! i) (stepVel A dt (bodyVel ! i) (bodyAccel ! i))],
      bodyVel[i := stepVel A dt (bodyVel ! i) (bodyAccel ! i)])"
  by (cases "bodyPos ! i"; cases "bodyVel ! i")
     (simp add: updateParticle_def stepVel_def stepPos_def Let_def)

lemma fold_updateParticle:
  assumes "n \<le> length bodyPos" and "n \<le> length bodyVel"
  shows "\<exists>pos' vel'. fold (updateParticle A dt bodyAccel) [0..<n] (bodyPos, bodyVel) = (pos', vel') \<and>
           length pos' = length bodyPos \<and> length vel' = length bodyVel \<and>
           (\<forall>k < length bodyVel. vel' ! k =
              (if k < n then stepVel A dt (bodyVel ! k) (bodyAccel ! k) else bodyVel ! k)) \<and>
           (\<forall>k < length bodyPos. pos' ! k =
              (if k < n then stepPos A dt (bodyPos ! k) (stepVel A dt (bodyVel ! k) (bodyAccel ! k))
               else bodyPos ! k))"
  using assms
proof (induction n)
  case 0
  then show ?case by simp
next
  case (Suc n)
  then obtain pos' vel' where
    f: "fold (updateParticle A dt bodyAccel) [0..<n] (bodyPos, bodyVel) = (pos', vel')"
    and l: "length pos' = length bodyPos" "length vel' = length bodyVel"
    and v: "\<forall>k < length bodyVel. vel' ! k =
              (if k < n then stepVel A dt (bodyVel ! k) (bodyAccel ! k) else bodyVel ! k)"
    and p: "\<forall>k < length bodyPos. pos' ! k =
              (if k < n then stepPos A dt (bodyPos ! k) (stepVel A dt (bodyVel ! k) (bodyAccel ! k))
               else bodyPos ! k)"
    by auto
  from Suc.prems l have n: "n < length pos'" "n < length vel'" "n < length bodyPos" "n < length bodyVel"
    by simp_all
  show ?case
    using f l v p n
    by (simp add: updateParticle_update nth_list_update less_Suc_eq)
qed

lemma updateParticles_n_nth:
  assumes "updateParticles_n A dt n bodyPos bodyVel bodyAccel = Some (pos', vel')"
  shows "length pos' = length bodyPos" and "length vel' = length bodyVel"
    and "k < length bodyVel \<Longrightarrow> vel' ! k =
              (if k < n then stepVel A dt (bodyVel ! k) (bodyAccel ! k) else bodyVel ! k)"
    and "k < length bodyPos \<Longrightarrow> pos' ! k =
              (if k < n then stepPos A dt (bodyPos ! k) (stepVel A dt (bodyVel ! k) (bodyAccel ! k))
               else bodyPos ! k)"
proof -
  from assms have n: "n \<le> length bodyPos" "n \<le> length bodyVel"
    and f: "fold (updateParticle A dt bodyAccel) [0..<n] (bodyPos, bodyVel) = (pos', vel')"
    by (auto simp: updateParticles_n_def split: if_splits)
  from fold_updateParticle [OF n, of A dt bodyAccel] f
  show "length pos' = length bodyPos" and "length vel' = length bodyVel"
    and "k < length bodyVel \<Longrightarrow> vel' ! k =
              (if k < n then stepVel A dt (bodyVel ! k) (bodyAccel ! k) else bodyVel ! k)"
    and "k < length bodyPos \<Longrightarrow> pos' ! k =
              (if k < n then stepPos A dt (bodyPos ! k) (stepVel A dt (bodyVel ! k) (bodyAccel ! k))
               else bodyPos ! k)"
    by auto
qed

lemma updateParticles_n_Some:
  "n \<le> length bodyPos \<Longrightarrow> n \<le> length bodyVel \<Longrightarrow> n \<le> length bodyAccel \<Longrightarrow>
   \<exists>pos' vel'. updateParticles_n A dt n bodyPos bodyVel bodyAccel = Some (pos', vel')"
  by (simp add: updateParticles_n_def split_paired_Ex [symmetric])

lemma updateParticles_n_step:
  assumes "updateParticles_n A dt n bodyPos bodyVel bodyAccel = Some (pos', vel')"
    and "i < n"
  shows "x3 (vel' ! i) = flt A (x3 (bodyVel ! i) + x3 (bodyAccel ! i) * dt) \<and>
         y3 (vel' ! i) = flt A (y3 (bodyVel ! i) + y3 (bodyAccel ! i) * dt) \<and>
         z3 (vel' ! i) = flt A (z3 (bodyVel ! i) + z3 (bodyAccel ! i) * dt) \<and>
         x4 (pos' ! i) = flt A (x4 (bodyPos ! i) + x3 (vel' ! i) * dt) \<and>
         y4 (pos' ! i) = flt A (y4 (bodyPos ! i) + y3 (vel' ! i) * dt) \<and>
         z4 (pos' ! i) = flt A (z4 (bodyPos ! i) + z3 (vel' ! i) * dt)"
proof -
  from assms have "i < length bodyPos" "i < length bodyVel"
    by (auto simp: updateParticles_n_def split: if_splits)
  with updateParticles_n_nth(3,4) [OF assms(1), of i] assms(2) show ?thesis
    by (simp add: stepVel_def stepPos_def)
qed

lemma updateParticles_n_mass:
  assumes "updateParticles_n A dt n bodyPos bodyVel bodyAccel = Some (pos', vel')"
  shows "map w4 pos' = map w4 bodyPos"
proof (rule nth_equalityI)
  show "length (map w4 pos') = length (map w4 bodyPos)"
    using updateParticles_n_nth(1) [OF assms] by simp
next
  fix k assume "k < length (map w4 pos')"
  then have k: "k < length bodyPos" "k < length pos'"
    using updateParticles_n_nth(1) [OF assms] by simp_all
  with updateParticles_n_nth(4) [OF assms, of k]
  show "map w4 pos' ! k = map w4 bodyPos ! k"
    by (simp add: stepPos_def)
qed

text \<open>
  The function of the source steps \<^verbatim>\<open>NUM_PARTICLES\<close> bodies, that is \<open>1000\<close>, by
  \<^verbatim>\<open>TIME_STEP\<close>, that is \<open>0.01\<close>.
\<close>

lemma updateParticles_source:
  assumes "1000 \<le> length bodyPos" and "1000 \<le> length bodyVel" and "1000 \<le> length bodyAccel"
  shows "\<exists>pos' vel'. updateParticles A bodyPos bodyVel bodyAccel = Some (pos', vel') \<and>
           map w4 pos' = map w4 bodyPos \<and>
           (\<forall>i < 1000.
              x3 (vel' ! i) = flt A (x3 (bodyVel ! i) + x3 (bodyAccel ! i) * lit A (1 / 100)) \<and>
              x4 (pos' ! i) = flt A (x4 (bodyPos ! i) + x3 (vel' ! i) * lit A (1 / 100)))"
proof -
  from assms obtain pos' vel'
    where s: "updateParticles_n A (lit A (1 / 100)) 1000 bodyPos bodyVel bodyAccel = Some (pos', vel')"
    using updateParticles_n_Some by blast
  then have "updateParticles A bodyPos bodyVel bodyAccel = Some (pos', vel')"
    by (simp add: updateParticles_def NUM_PARTICLES_def TIME_STEP_def)
  then show ?thesis
    using updateParticles_n_step [OF s] updateParticles_n_mass [OF s] by blast
qed

text \<open>
  C3. One step of the integrator, on arrays that hold the \<open>n\<close> bodies, returns, and for
  every body \<open>i\<close> below \<open>n\<close> the velocity becomes \<open>v + a * dt\<close> and the position becomes
  \<open>p + v' * dt\<close> with the velocity \<open>v'\<close> just computed (semi-implicit Euler). The sums and
  products are those of the arithmetic, and \<open>flt\<close> is the store into the \<^verbatim>\<open>float\<close>
  field; in exact arithmetic it is the identity.
\<close>

theorem velocity_before_position:
  assumes "n \<le> length bodyPos" and "n \<le> length bodyVel" and "n \<le> length bodyAccel"
  shows "\<exists>pos' vel'. updateParticles_n A dt n bodyPos bodyVel bodyAccel = Some (pos', vel') \<and>
           (\<forall>i < n.
              x3 (vel' ! i) = flt A (x3 (bodyVel ! i) + x3 (bodyAccel ! i) * dt) \<and>
              y3 (vel' ! i) = flt A (y3 (bodyVel ! i) + y3 (bodyAccel ! i) * dt) \<and>
              z3 (vel' ! i) = flt A (z3 (bodyVel ! i) + z3 (bodyAccel ! i) * dt) \<and>
              x4 (pos' ! i) = flt A (x4 (bodyPos ! i) + x3 (vel' ! i) * dt) \<and>
              y4 (pos' ! i) = flt A (y4 (bodyPos ! i) + y3 (vel' ! i) * dt) \<and>
              z4 (pos' ! i) = flt A (z4 (bodyPos ! i) + z3 (vel' ! i) * dt))"
proof -
  from assms obtain pos' vel'
    where s: "updateParticles_n A dt n bodyPos bodyVel bodyAccel = Some (pos', vel')"
    using updateParticles_n_Some by blast
  then show ?thesis
    using updateParticles_n_step [OF s] by blast
qed

text \<open>
  One body with \<open>v = 1\<close>, \<open>a = 2\<close>, \<open>dt = 1/2\<close> at \<open>x = 0\<close>: the velocity becomes \<open>2\<close> and
  the position \<open>1\<close>, from the new velocity (the old velocity would give \<open>1/2\<close>).
\<close>

theorem velocity_before_position_witness:
  "(1::nat) \<le> length [\<lparr> x4 = 0, y4 = 0, z4 = 0, w4 = 5::real \<rparr>] \<and>
   (1::nat) \<le> length [\<lparr> x3 = 1, y3 = 0, z3 = 0::real \<rparr>] \<and>
   (1::nat) \<le> length [\<lparr> x3 = 2, y3 = 0, z3 = 0::real \<rparr>] \<and>
   updateParticles_n real_arith (1 / 2) 1
     [\<lparr> x4 = 0, y4 = 0, z4 = 0, w4 = 5 \<rparr>] [\<lparr> x3 = 1, y3 = 0, z3 = 0 \<rparr>] [\<lparr> x3 = 2, y3 = 0, z3 = 0 \<rparr>]
     = Some ([\<lparr> x4 = 1, y4 = 0, z4 = 0, w4 = 5 \<rparr>], [\<lparr> x3 = 2, y3 = 0, z3 = 0 \<rparr>]) \<and>
   (\<exists>pos' vel'. updateParticles_n real_arith (1 / 2) 1
       [\<lparr> x4 = 0, y4 = 0, z4 = 0, w4 = 5 \<rparr>] [\<lparr> x3 = 1, y3 = 0, z3 = 0 \<rparr>] [\<lparr> x3 = 2, y3 = 0, z3 = 0 \<rparr>]
       = Some (pos', vel') \<and>
     x3 (vel' ! 0) = flt real_arith (1 + 2 * (1 / 2)) \<and>
     x4 (pos' ! 0) = flt real_arith (0 + x3 (vel' ! 0) * (1 / 2)))"
  using velocity_before_position [of 1
     "[\<lparr> x4 = 0, y4 = 0, z4 = 0, w4 = 5 \<rparr>]" "[\<lparr> x3 = 1, y3 = 0, z3 = 0 \<rparr>]" "[\<lparr> x3 = 2, y3 = 0, z3 = 0 \<rparr>]"
     real_arith "1 / 2"]
  by (simp add: updateParticles_n_def updateParticle_def real_arith_def)

text \<open>
  C9. One step of the integrator, on arrays that hold the \<open>n\<close> bodies, returns and leaves the
  mass (the field \<open>w\<close>) of every body unchanged.
\<close>

theorem mass_unchanged:
  assumes "n \<le> length bodyPos" and "n \<le> length bodyVel" and "n \<le> length bodyAccel"
  shows "\<exists>pos' vel'. updateParticles_n A dt n bodyPos bodyVel bodyAccel = Some (pos', vel') \<and>
           map w4 pos' = map w4 bodyPos"
proof -
  from assms obtain pos' vel'
    where s: "updateParticles_n A dt n bodyPos bodyVel bodyAccel = Some (pos', vel')"
    using updateParticles_n_Some by blast
  then show ?thesis
    using updateParticles_n_mass [OF s] by blast
qed

text \<open>
  One body of mass \<open>50\<close> with \<open>v = 1\<close>, \<open>a = 2\<close> and \<open>dt = 1/2\<close>, in the arithmetic of
  the formats: the velocity becomes \<open>2\<close>, the position \<open>1\<close>, and the mass stays \<open>50\<close>.
\<close>

theorem mass_unchanged_witness:
  "(1::nat) \<le> length [\<lparr> x4 = Finite 0, y4 = Finite 0, z4 = Finite 0, w4 = Finite 50 \<rparr>] \<and>
   (1::nat) \<le> length [\<lparr> x3 = Finite 1, y3 = Finite 0, z3 = Finite 0 \<rparr>] \<and>
   (1::nat) \<le> length [\<lparr> x3 = Finite 2, y3 = Finite 0, z3 = Finite 0 \<rparr>] \<and>
   updateParticles_n ieee_arith (Finite (1 / 2)) 1
     [\<lparr> x4 = Finite 0, y4 = Finite 0, z4 = Finite 0, w4 = Finite 50 \<rparr>]
     [\<lparr> x3 = Finite 1, y3 = Finite 0, z3 = Finite 0 \<rparr>]
     [\<lparr> x3 = Finite 2, y3 = Finite 0, z3 = Finite 0 \<rparr>]
     = Some ([\<lparr> x4 = Finite 1, y4 = Finite 0, z4 = Finite 0, w4 = Finite 50 \<rparr>],
             [\<lparr> x3 = Finite 2, y3 = Finite 0, z3 = Finite 0 \<rparr>]) \<and>
   (\<exists>pos' vel'. updateParticles_n ieee_arith (Finite (1 / 2)) 1
       [\<lparr> x4 = Finite 0, y4 = Finite 0, z4 = Finite 0, w4 = Finite 50 \<rparr>]
       [\<lparr> x3 = Finite 1, y3 = Finite 0, z3 = Finite 0 \<rparr>]
       [\<lparr> x3 = Finite 2, y3 = Finite 0, z3 = Finite 0 \<rparr>] = Some (pos', vel') \<and>
     map w4 pos' = map w4 [\<lparr> x4 = Finite 0, y4 = Finite 0, z4 = Finite 0, w4 = Finite 50 \<rparr>])"
proof -
  have e: "updateParticles_n ieee_arith (Finite (1 / 2)) 1
     [\<lparr> x4 = Finite 0, y4 = Finite 0, z4 = Finite 0, w4 = Finite 50 \<rparr>]
     [\<lparr> x3 = Finite 1, y3 = Finite 0, z3 = Finite 0 \<rparr>]
     [\<lparr> x3 = Finite 2, y3 = Finite 0, z3 = Finite 0 \<rparr>]
     = Some ([\<lparr> x4 = Finite 1, y4 = Finite 0, z4 = Finite 0, w4 = Finite 50 \<rparr>],
             [\<lparr> x3 = Finite 2, y3 = Finite 0, z3 = Finite 0 \<rparr>])"
    by (simp add: updateParticles_n_def updateParticle_def ieee_ops plus_ieee_def
        times_ieee_def round_to_small)
  from mass_unchanged [of 1
      "[\<lparr> x4 = Finite 0, y4 = Finite 0, z4 = Finite 0, w4 = Finite 50 \<rparr>]"
      "[\<lparr> x3 = Finite 1, y3 = Finite 0, z3 = Finite 0 \<rparr>]"
      "[\<lparr> x3 = Finite 2, y3 = Finite 0, z3 = Finite 0 \<rparr>]" ieee_arith "Finite (1 / 2)"] e
  show ?thesis
    by simp
qed

section \<open>The direct force evaluator in exact arithmetic\<close>

lemma softenedDistSqr_pos: "0 < softenedDistSqr p q"
proof -
  have "0 \<le> (x4 q - x4 p) ^ 2 + (y4 q - y4 p) ^ 2 + (z4 q - z4 p) ^ 2"
    by simp
  then show ?thesis
    unfolding softenedDistSqr_def by (simp add: add_nonneg_pos)
qed

lemma softenedDistSqr_commute: "softenedDistSqr p q = softenedDistSqr q p"
  unfolding softenedDistSqr_def by (simp add: power2_commute)

lemma inverse_sqrt_cubed:
  assumes "0 < d"
  shows "1 / sqrt d * (1 / sqrt d) * (1 / sqrt d) = 1 / d powr (3 / 2)"
proof -
  have "d powr (3 / 2) = d powr (1 + 1 / 2)"
    by simp
  also have "\<dots> = d * sqrt d"
    using assms by (simp only: powr_add powr_one powr_half_sqrt)
  finally have p: "d powr (3 / 2) = d * sqrt d" .
  have "sqrt d * sqrt d = d"
    using assms by simp
  then have "sqrt d * sqrt d * sqrt d = d * sqrt d"
    by simp
  with p show ?thesis
    by (simp add: mult.assoc)
qed

lemma pairAccel_real:
  "pairAccel real_arith pos i j =
     \<lparr> x3 = (x4 (pos ! j) - x4 (pos ! i)) * w4 (pos ! j) / softenedDistSqr (pos ! i) (pos ! j) powr (3 / 2),
       y3 = (y4 (pos ! j) - y4 (pos ! i)) * w4 (pos ! j) / softenedDistSqr (pos ! i) (pos ! j) powr (3 / 2),
       z3 = (z4 (pos ! j) - z4 (pos ! i)) * w4 (pos ! j) / softenedDistSqr (pos ! i) (pos ! j) powr (3 / 2) \<rparr>"
proof -
  let ?d = "softenedDistSqr (pos ! i) (pos ! j)"
  have d: "(x4 (pos ! j) - x4 (pos ! i)) * (x4 (pos ! j) - x4 (pos ! i)) +
           (y4 (pos ! j) - y4 (pos ! i)) * (y4 (pos ! j) - y4 (pos ! i)) +
           (z4 (pos ! j) - z4 (pos ! i)) * (z4 (pos ! j) - z4 (pos ! i)) + 1 / 10 * (1 / 10) = ?d"
    unfolding softenedDistSqr_def by (simp add: power2_eq_square)
  have c: "1 / sqrt ?d * (1 / sqrt ?d) * (1 / sqrt ?d) = 1 / ?d powr (3 / 2)"
    by (rule inverse_sqrt_cubed) (rule softenedDistSqr_pos)
  show ?thesis
    unfolding pairAccel_def Let_def real_arith_def
    by (simp only: arith.simps d c) simp
qed

lemma fold_accumulate_real:
  "fold (\<lambda>j a. if i = j then a else accumulate real_arith a (c j)) js a0 =
     \<lparr> x3 = x3 a0 + sum_list (map (\<lambda>j. x3 (c j)) (filter (\<lambda>j. j \<noteq> i) js)),
       y3 = y3 a0 + sum_list (map (\<lambda>j. y3 (c j)) (filter (\<lambda>j. j \<noteq> i) js)),
       z3 = z3 a0 + sum_list (map (\<lambda>j. z3 (c j)) (filter (\<lambda>j. j \<noteq> i) js)) \<rparr>"
proof (induction js arbitrary: a0)
  case Nil
  then show ?case by simp
next
  case (Cons j js)
  then show ?case
    by (simp add: accumulate_def real_arith_def)
qed

lemma sum_list_others:
  "sum_list (map f (filter (\<lambda>j. j \<noteq> i) [0..<n])) = (\<Sum>j \<in> {0..<n} - {i}. f j)"
proof -
  have "distinct (filter (\<lambda>j. j \<noteq> i) [0..<n])"
    by simp
  then have "sum_list (map f (filter (\<lambda>j. j \<noteq> i) [0..<n])) = sum f (set (filter (\<lambda>j. j \<noteq> i) [0..<n]))"
    by (rule sum_list_distinct_conv_sum_set)
  also have "set (filter (\<lambda>j. j \<noteq> i) [0..<n]) = {0..<n} - {i}"
    by auto
  finally show ?thesis .
qed

lemma accelOn_real: "accelOn real_arith pos n i = pairwiseSum pos n i"
  unfolding accelOn_def fold_accumulate_real sum_list_others pairwiseSum_def
  by (simp add: pairAccel_real)

lemma calculateAccelerations_real_nth:
  assumes "calculateAccelerations real_arith bodyPos bodyAccel numParticles = Some acc"
    and "i < nat numParticles"
  shows "acc ! i = pairwiseSum bodyPos (nat numParticles) i"
proof -
  from assms have "i < length bodyAccel"
    by (auto simp: calculateAccelerations_def Let_def split: if_splits)
  with calculateAccelerations_nth(1) [OF assms(1), of i] assms(2) show ?thesis
    by (simp add: accelOn_real)
qed

lemma antisymmetric_double_sum:
  fixes F :: "nat \<Rightarrow> nat \<Rightarrow> real"
  assumes "\<And>i j. F i j = - F j i"
  shows "(\<Sum>i<n. \<Sum>j<n. F i j) = 0"
proof -
  have "(\<Sum>i<n. \<Sum>j<n. F i j) = (\<Sum>j<n. \<Sum>i<n. F i j)"
    by (rule sum.swap)
  also have "\<dots> = (\<Sum>j<n. \<Sum>i<n. - F j i)"
    by (subst assms) (rule refl)
  also have "\<dots> = - (\<Sum>i<n. \<Sum>j<n. F i j)"
    by (simp add: sum_negf)
  finally show ?thesis by simp
qed

lemma sum_others_if:
  fixes g :: "nat \<Rightarrow> real"
  shows "(\<Sum>j \<in> {0..<n} - {i}. g j) = (\<Sum>j<n. if j = i then 0 else g j)"
proof -
  have "(\<Sum>j \<in> {0..<n}. if j = i then 0 else g j)
      = (\<Sum>j \<in> {0..<n} \<inter> {j. j = i}. 0) + (\<Sum>j \<in> {0..<n} \<inter> - {j. j = i}. g j)"
    by (rule sum.If_cases) simp
  moreover have "{0..<n} \<inter> - {j. j = i} = {0..<n} - {i}"
    by auto
  ultimately show ?thesis
    by (simp add: atLeast0LessThan)
qed

lemma weighted_pairwise_cancel:
  fixes d :: "nat \<Rightarrow> real" and m :: "nat \<Rightarrow> real" and D :: "nat \<Rightarrow> nat \<Rightarrow> real"
  assumes "\<And>i j. D i j = D j i"
  shows "(\<Sum>i<n. m i * (\<Sum>j \<in> {0..<n} - {i}. (d j - d i) * m j / D i j)) = 0"
proof -
  let ?F = "\<lambda>i j. if j = i then 0 else m i * ((d j - d i) * m j / D i j)"
  have "(\<Sum>i<n. m i * (\<Sum>j \<in> {0..<n} - {i}. (d j - d i) * m j / D i j))
      = (\<Sum>i<n. \<Sum>j<n. ?F i j)"
    by (simp add: sum_others_if sum_distrib_left if_distrib cong: if_cong)
  also have "\<dots> = 0"
  proof (rule antisymmetric_double_sum)
    fix i j
    have a: "m i * ((d j - d i) * m j / D i j) = (m i * m j * (d j - d i)) / D i j"
      by (simp add: mult.commute mult.left_commute)
    have b: "m j * ((d i - d j) * m i / D i j) = (m i * m j * (d i - d j)) / D i j"
      by (simp add: mult.commute mult.left_commute)
    have c: "m i * m j * (d j - d i) = - (m i * m j * (d i - d j))"
      by (simp add: right_diff_distrib)
    have "m i * ((d j - d i) * m j / D i j) = - (m j * ((d i - d j) * m i / D i j))"
      unfolding a b c by (rule minus_divide_left [symmetric])
    then show "?F i j = - ?F j i"
      using assms [of i j] by auto
  qed
  finally show ?thesis .
qed

lemma totalForce_pairwiseSum:
  "totalForce n pos (map (pairwiseSum pos n) [0..<n]) = \<lparr> x3 = 0, y3 = 0, z3 = 0 \<rparr>"
proof -
  let ?D = "\<lambda>i j. softenedDistSqr (pos ! i) (pos ! j) powr (3 / 2)"
  have D: "\<And>i j. ?D i j = ?D j i"
    by (simp add: softenedDistSqr_commute)
  show ?thesis
    unfolding totalForce_def
    using weighted_pairwise_cancel [where D = ?D and n = n and m = "\<lambda>i. w4 (pos ! i)" and d = "\<lambda>i. x4 (pos ! i)", OF D]
      weighted_pairwise_cancel [where D = ?D and n = n and m = "\<lambda>i. w4 (pos ! i)" and d = "\<lambda>i. y4 (pos ! i)", OF D]
      weighted_pairwise_cancel [where D = ?D and n = n and m = "\<lambda>i. w4 (pos ! i)" and d = "\<lambda>i. z4 (pos ! i)", OF D]
    by (simp add: pairwiseSum_def)
qed

lemma momentum_step:
  assumes "updateParticles_n real_arith dt n bodyPos bodyVel acc = Some (pos', vel')"
  shows "momentum n pos' vel' =
           \<lparr> x3 = x3 (momentum n bodyPos bodyVel) + dt * x3 (totalForce n bodyPos acc),
             y3 = y3 (momentum n bodyPos bodyVel) + dt * y3 (totalForce n bodyPos acc),
             z3 = z3 (momentum n bodyPos bodyVel) + dt * z3 (totalForce n bodyPos acc) \<rparr>"
proof -
  from assms have n: "n \<le> length bodyPos" "n \<le> length bodyVel"
    by (auto simp: updateParticles_n_def split: if_splits)
  have v: "vel' ! i = stepVel real_arith dt (bodyVel ! i) (acc ! i)" if "i < n" for i
    using updateParticles_n_nth(3) [OF assms, of i] that n by simp
  have p: "w4 (pos' ! i) = w4 (bodyPos ! i)" if "i < n" for i
    using updateParticles_n_nth(4) [OF assms, of i] that n by (simp add: stepPos_def)
  have x: "(\<Sum>i<n. w4 (pos' ! i) * x3 (vel' ! i))
         = (\<Sum>i<n. w4 (bodyPos ! i) * x3 (bodyVel ! i)) + dt * (\<Sum>i<n. w4 (bodyPos ! i) * x3 (acc ! i))"
    by (simp add: v p stepVel_def real_arith_def sum_distrib_left distrib_left mult_ac
        flip: sum.distrib)
  have y: "(\<Sum>i<n. w4 (pos' ! i) * y3 (vel' ! i))
         = (\<Sum>i<n. w4 (bodyPos ! i) * y3 (bodyVel ! i)) + dt * (\<Sum>i<n. w4 (bodyPos ! i) * y3 (acc ! i))"
    by (simp add: v p stepVel_def real_arith_def sum_distrib_left distrib_left mult_ac
        flip: sum.distrib)
  have z: "(\<Sum>i<n. w4 (pos' ! i) * z3 (vel' ! i))
         = (\<Sum>i<n. w4 (bodyPos ! i) * z3 (bodyVel ! i)) + dt * (\<Sum>i<n. w4 (bodyPos ! i) * z3 (acc ! i))"
    by (simp add: v p stepVel_def real_arith_def sum_distrib_left distrib_left mult_ac
        flip: sum.distrib)
  show ?thesis
    by (simp add: momentum_def totalForce_def x y z)
qed

lemma forces_cancel_momentum:
  assumes "calculateAccelerations real_arith bodyPos bodyAccel (int n) = Some acc"
    and "updateParticles_n real_arith dt n bodyPos bodyVel acc = Some (pos', vel')"
  shows "totalForce n bodyPos acc = \<lparr> x3 = 0, y3 = 0, z3 = 0 \<rparr> \<and>
         momentum n pos' vel' = momentum n bodyPos bodyVel"
proof -
  have a: "acc ! i = map (pairwiseSum bodyPos n) [0..<n] ! i" if "i < n" for i
    using calculateAccelerations_real_nth [OF assms(1), of i] that by simp
  have "totalForce n bodyPos acc = totalForce n bodyPos (map (pairwiseSum bodyPos n) [0..<n])"
    unfolding totalForce_def by (simp add: a)
  then have f: "totalForce n bodyPos acc = \<lparr> x3 = 0, y3 = 0, z3 = 0 \<rparr>"
    by (simp add: totalForce_pairwiseSum)
  have "momentum n pos' vel' = momentum n bodyPos bodyVel"
    unfolding momentum_step [OF assms(2)] f by (simp add: momentum_def)
  with f show ?thesis
    by simp
qed

text \<open>
  C4. In exact arithmetic, on arrays that hold the \<open>n\<close> bodies, the direct evaluation and
  one step of the integrator with its accelerations return; the accelerations satisfy
  \<open>\<Sum>i. mass i * accel i = 0\<close>, and the total momentum \<open>\<Sum>i. mass i * vel i\<close> is the same
  before and after the step.
\<close>

theorem internal_forces_cancel:
  assumes "n \<le> length bodyPos" and "n \<le> length bodyVel" and "n \<le> length bodyAccel"
  shows "\<exists>acc pos' vel'.
           calculateAccelerations real_arith bodyPos bodyAccel (int n) = Some acc \<and>
           updateParticles_n real_arith dt n bodyPos bodyVel acc = Some (pos', vel') \<and>
           totalForce n bodyPos acc = \<lparr> x3 = 0, y3 = 0, z3 = 0 \<rparr> \<and>
           momentum n pos' vel' = momentum n bodyPos bodyVel"
proof -
  from assms(1,3) obtain acc
    where a: "calculateAccelerations real_arith bodyPos bodyAccel (int n) = Some acc"
    using calculateAccelerations_Some [of "int n" bodyPos bodyAccel real_arith] by auto
  from assms(3) have "length acc = length bodyAccel"
  proof (cases "length bodyAccel")
    case 0
    with a assms(3) show ?thesis
      by (simp add: calculateAccelerations_def clearAccelerations_def)
  next
    case (Suc m)
    then have "0 < length bodyAccel"
      by simp
    then show ?thesis
      by (rule calculateAccelerations_nth(2) [OF a])
  qed
  with assms obtain pos' vel'
    where s: "updateParticles_n real_arith dt n bodyPos bodyVel acc = Some (pos', vel')"
    using updateParticles_n_Some [of n bodyPos bodyVel acc real_arith dt] by auto
  from forces_cancel_momentum [OF a s] a s show ?thesis
    by blast
qed

lemma sqrt_169_2500: "sqrt (169 / 2500) = 13 / 50"
  by (rule real_sqrt_unique) (simp_all add: power2_eq_square)

lemma pair_accel:
  "calculateAccelerations real_arith
     [\<lparr> x4 = 0, y4 = 0, z4 = 0, w4 = 3 \<rparr>, \<lparr> x4 = 6 / 25, y4 = 0, z4 = 0, w4 = 5 \<rparr>]
     [\<lparr> x3 = 7, y3 = 8, z3 = 9 \<rparr>, \<lparr> x3 = 1, y3 = 1, z3 = 1 \<rparr>] (int 2)
   = Some [\<lparr> x3 = 150000 / 2197, y3 = 0, z3 = 0 \<rparr>, \<lparr> x3 = - (90000 / 2197), y3 = 0, z3 = 0 \<rparr>]"
  by (simp add: calculateAccelerations_def clearAccelerations_def pairInteraction_def Let_def
      real_arith_def numeral_2_eq_2 sqrt_169_2500)

lemma pair_step:
  "updateParticles_n real_arith (1 / 100) 2
     [\<lparr> x4 = 0, y4 = 0, z4 = 0, w4 = 3 \<rparr>, \<lparr> x4 = 6 / 25, y4 = 0, z4 = 0, w4 = 5 \<rparr>]
     [\<lparr> x3 = 1, y3 = 0, z3 = 0 \<rparr>, \<lparr> x3 = 0, y3 = 2, z3 = 0 \<rparr>]
     [\<lparr> x3 = 150000 / 2197, y3 = 0, z3 = 0 \<rparr>, \<lparr> x3 = - (90000 / 2197), y3 = 0, z3 = 0 \<rparr>]
   = Some ([\<lparr> x4 = 3697 / 219700, y4 = 0, z4 = 0, w4 = 3 \<rparr>,
            \<lparr> x4 = 12957 / 54925, y4 = 1 / 50, z4 = 0, w4 = 5 \<rparr>],
           [\<lparr> x3 = 3697 / 2197, y3 = 0, z3 = 0 \<rparr>, \<lparr> x3 = - (900 / 2197), y3 = 2, z3 = 0 \<rparr>])"
  by (simp add: updateParticles_n_def updateParticle_def real_arith_def numeral_2_eq_2)

text \<open>
  Two bodies of masses \<open>3\<close> and \<open>5\<close> at distance \<open>6/25\<close>: the softened distance is \<open>13/50\<close>,
  the accelerations are \<open>150000/2197\<close> and \<open>- 90000/2197\<close> along \<open>x\<close>.
\<close>

theorem internal_forces_cancel_witness:
  "(2::nat) \<le> length [\<lparr> x4 = 0, y4 = 0, z4 = 0, w4 = 3 \<rparr>, \<lparr> x4 = 6 / 25, y4 = 0, z4 = 0, w4 = 5::real \<rparr>] \<and>
   (2::nat) \<le> length [\<lparr> x3 = 1, y3 = 0, z3 = 0 \<rparr>, \<lparr> x3 = 0, y3 = 2, z3 = 0::real \<rparr>] \<and>
   (2::nat) \<le> length [\<lparr> x3 = 7, y3 = 8, z3 = 9 \<rparr>, \<lparr> x3 = 1, y3 = 1, z3 = 1::real \<rparr>] \<and>
   calculateAccelerations real_arith
     [\<lparr> x4 = 0, y4 = 0, z4 = 0, w4 = 3 \<rparr>, \<lparr> x4 = 6 / 25, y4 = 0, z4 = 0, w4 = 5 \<rparr>]
     [\<lparr> x3 = 7, y3 = 8, z3 = 9 \<rparr>, \<lparr> x3 = 1, y3 = 1, z3 = 1 \<rparr>] (int 2)
   = Some [\<lparr> x3 = 150000 / 2197, y3 = 0, z3 = 0 \<rparr>, \<lparr> x3 = - (90000 / 2197), y3 = 0, z3 = 0 \<rparr>] \<and>
   updateParticles_n real_arith (1 / 100) 2
     [\<lparr> x4 = 0, y4 = 0, z4 = 0, w4 = 3 \<rparr>, \<lparr> x4 = 6 / 25, y4 = 0, z4 = 0, w4 = 5 \<rparr>]
     [\<lparr> x3 = 1, y3 = 0, z3 = 0 \<rparr>, \<lparr> x3 = 0, y3 = 2, z3 = 0 \<rparr>]
     [\<lparr> x3 = 150000 / 2197, y3 = 0, z3 = 0 \<rparr>, \<lparr> x3 = - (90000 / 2197), y3 = 0, z3 = 0 \<rparr>]
   = Some ([\<lparr> x4 = 3697 / 219700, y4 = 0, z4 = 0, w4 = 3 \<rparr>,
            \<lparr> x4 = 12957 / 54925, y4 = 1 / 50, z4 = 0, w4 = 5 \<rparr>],
           [\<lparr> x3 = 3697 / 2197, y3 = 0, z3 = 0 \<rparr>, \<lparr> x3 = - (900 / 2197), y3 = 2, z3 = 0 \<rparr>]) \<and>
   totalForce 2
     [\<lparr> x4 = 0, y4 = 0, z4 = 0, w4 = 3 \<rparr>, \<lparr> x4 = 6 / 25, y4 = 0, z4 = 0, w4 = 5 \<rparr>]
     [\<lparr> x3 = 150000 / 2197, y3 = 0, z3 = 0 \<rparr>, \<lparr> x3 = - (90000 / 2197), y3 = 0, z3 = 0 \<rparr>]
   = \<lparr> x3 = 0, y3 = 0, z3 = 0 \<rparr> \<and>
   momentum 2
     [\<lparr> x4 = 3697 / 219700, y4 = 0, z4 = 0, w4 = 3 \<rparr>,
      \<lparr> x4 = 12957 / 54925, y4 = 1 / 50, z4 = 0, w4 = 5 \<rparr>]
     [\<lparr> x3 = 3697 / 2197, y3 = 0, z3 = 0 \<rparr>, \<lparr> x3 = - (900 / 2197), y3 = 2, z3 = 0 \<rparr>]
   = momentum 2
     [\<lparr> x4 = 0, y4 = 0, z4 = 0, w4 = 3 \<rparr>, \<lparr> x4 = 6 / 25, y4 = 0, z4 = 0, w4 = 5 \<rparr>]
     [\<lparr> x3 = 1, y3 = 0, z3 = 0 \<rparr>, \<lparr> x3 = 0, y3 = 2, z3 = 0 \<rparr>]"
  using internal_forces_cancel [of 2
      "[\<lparr> x4 = 0, y4 = 0, z4 = 0, w4 = 3 \<rparr>, \<lparr> x4 = 6 / 25, y4 = 0, z4 = 0, w4 = 5 \<rparr>]"
      "[\<lparr> x3 = 1, y3 = 0, z3 = 0 \<rparr>, \<lparr> x3 = 0, y3 = 2, z3 = 0 \<rparr>]"
      "[\<lparr> x3 = 7, y3 = 8, z3 = 9 \<rparr>, \<lparr> x3 = 1, y3 = 1, z3 = 1 \<rparr>]" "1 / 100"]
    pair_accel pair_step
  by simp

text \<open>
  C1, as amended. In exact arithmetic (no rounding, no overflow), on arrays that hold the
  \<open>numParticles\<close> bodies and whatever the acceleration array held before, the evaluation
  returns, and the acceleration of every body \<open>i\<close> below \<open>numParticles\<close> is the pairwise sum
  over the other bodies \<open>j \<noteq> i\<close> of
  \<open>(pos j - pos i) * mass j / (|pos j - pos i|\<^sup>2 + 0.1\<^sup>2) powr 1.5\<close>.
\<close>

theorem acceleration_is_pairwise_sum:
  assumes "nat numParticles \<le> length bodyPos" and "nat numParticles \<le> length bodyAccel"
  shows "\<exists>acc. calculateAccelerations real_arith bodyPos bodyAccel numParticles = Some acc \<and>
           (\<forall>i < nat numParticles. acc ! i = pairwiseSum bodyPos (nat numParticles) i)"
proof -
  from assms obtain acc
    where a: "calculateAccelerations real_arith bodyPos bodyAccel numParticles = Some acc"
    using calculateAccelerations_Some by blast
  then show ?thesis
    using calculateAccelerations_real_nth [OF a] by blast
qed

theorem acceleration_is_pairwise_sum_witness:
  "nat (int 2) \<le> length [\<lparr> x4 = 0, y4 = 0, z4 = 0, w4 = 3 \<rparr>, \<lparr> x4 = 6 / 25, y4 = 0, z4 = 0, w4 = 5::real \<rparr>] \<and>
   nat (int 2) \<le> length [\<lparr> x3 = 7, y3 = 8, z3 = 9 \<rparr>, \<lparr> x3 = 1, y3 = 1, z3 = 1::real \<rparr>] \<and>
   calculateAccelerations real_arith
     [\<lparr> x4 = 0, y4 = 0, z4 = 0, w4 = 3 \<rparr>, \<lparr> x4 = 6 / 25, y4 = 0, z4 = 0, w4 = 5 \<rparr>]
     [\<lparr> x3 = 7, y3 = 8, z3 = 9 \<rparr>, \<lparr> x3 = 1, y3 = 1, z3 = 1 \<rparr>] (int 2)
   = Some [\<lparr> x3 = 150000 / 2197, y3 = 0, z3 = 0 \<rparr>, \<lparr> x3 = - (90000 / 2197), y3 = 0, z3 = 0 \<rparr>] \<and>
   pairwiseSum
      [\<lparr> x4 = 0, y4 = 0, z4 = 0, w4 = 3 \<rparr>, \<lparr> x4 = 6 / 25, y4 = 0, z4 = 0, w4 = 5 \<rparr>] (nat (int 2)) 0
   = \<lparr> x3 = 150000 / 2197, y3 = 0, z3 = 0 \<rparr> \<and>
   pairwiseSum
      [\<lparr> x4 = 0, y4 = 0, z4 = 0, w4 = 3 \<rparr>, \<lparr> x4 = 6 / 25, y4 = 0, z4 = 0, w4 = 5 \<rparr>] (nat (int 2)) 1
   = \<lparr> x3 = - (90000 / 2197), y3 = 0, z3 = 0 \<rparr>"
  using acceleration_is_pairwise_sum [of "int 2"
      "[\<lparr> x4 = 0, y4 = 0, z4 = 0, w4 = 3 \<rparr>, \<lparr> x4 = 6 / 25, y4 = 0, z4 = 0, w4 = 5 \<rparr>]"
      "[\<lparr> x3 = 7, y3 = 8, z3 = 9 \<rparr>, \<lparr> x3 = 1, y3 = 1, z3 = 1 \<rparr>]"]
    pair_accel
  by (auto simp: less_Suc_eq numeral_2_eq_2)

section \<open>The error metric in exact arithmetic\<close>

lemma errorStep_eq:
  "errorStep A bodyAccel bodyAcceld numParticles i L2norm =
     L2norm + differenceSqr A (bodyAccel ! i) (bodyAcceld ! i) / referenceSqr A (bodyAccel ! i)
                / lit A (real_of_int numParticles)"
  by (simp add: errorStep_def differenceSqr_def referenceSqr_def)

lemma fold_errorStep_real:
  "fold (errorStep real_arith bodyAccel bodyAcceld numParticles) is L =
     L + (\<Sum>i\<leftarrow>is. squaredDifference (bodyAccel ! i) (bodyAcceld ! i)
                      / squaredMagnitude (bodyAccel ! i) / real_of_int numParticles)"
proof (induction "is" arbitrary: L)
  case Nil
  then show ?case by simp
next
  case (Cons i "is")
  have "errorStep real_arith bodyAccel bodyAcceld numParticles i L =
          L + squaredDifference (bodyAccel ! i) (bodyAcceld ! i)
                / squaredMagnitude (bodyAccel ! i) / real_of_int numParticles"
    by (simp add: errorStep_eq differenceSqr_def referenceSqr_def squaredDifference_def
        squaredMagnitude_def real_arith_def power2_eq_square)
  then show ?case
    by (simp add: Cons.IH)
qed

text \<open>
  C7. In exact arithmetic, for \<open>N \<ge> 1\<close> and reference accelerations of nonzero magnitude,
  the value the harness computes (dividing by \<open>N\<close> inside the loop) is the documented
  formula (dividing the sum by \<open>N\<close>, then the square root).
\<close>

theorem division_inside_loop_equivalent:
  assumes "1 \<le> numParticles"
    and "nat numParticles \<le> length bodyAccel" and "nat numParticles \<le> length bodyAcceld"
    and "\<forall>i < nat numParticles. squaredMagnitude (bodyAccel ! i) \<noteq> 0"
  shows "main_L2norm real_arith bodyAccel bodyAcceld numParticles =
           Some (documented_L2 bodyAccel bodyAcceld (nat numParticles))"
proof -
  let ?n = "nat numParticles"
  let ?r = "\<lambda>i. squaredDifference (bodyAccel ! i) (bodyAcceld ! i) / squaredMagnitude (bodyAccel ! i)"
  from assms(1) have N: "real_of_int numParticles = real ?n"
    by simp
  have "fold (errorStep real_arith bodyAccel bodyAcceld numParticles) [0..<?n] 0
          = (\<Sum>i\<leftarrow>[0..<?n]. ?r i / real ?n)"
    by (simp add: fold_errorStep_real N)
  also have "\<dots> = (\<Sum>i<?n. ?r i / real ?n)"
    by (simp add: interv_sum_list_conv_sum_set_nat atLeast0LessThan)
  also have "\<dots> = (\<Sum>i<?n. ?r i) / real ?n"
    by (rule sum_divide_distrib [symmetric])
  finally show ?thesis
    using assms(2,3) by (simp add: main_L2norm_def Let_def documented_L2_def real_arith_def)
qed

text \<open>
  Two bodies: the reference accelerations \<open>(3, 4, 0)\<close> and \<open>(0, 5, 0)\<close>, the approximate
  ones \<open>(3, 3, 0)\<close> and \<open>(7, 5, 0)\<close>. The relative squared errors are \<open>1/25\<close> and
  \<open>49/25\<close>, their sum is \<open>2\<close>, and the error is \<open>sqrt (2 / 2) = 1\<close>; without the division
  by \<open>N = 2\<close> it would be \<open>sqrt 2\<close>.
\<close>

theorem division_inside_loop_equivalent_witness:
  "(1::int) \<le> 2 \<and>
   nat 2 \<le> length [\<lparr> x3 = 3, y3 = 4, z3 = 0::real \<rparr>, \<lparr> x3 = 0, y3 = 5, z3 = 0 \<rparr>] \<and>
   nat 2 \<le> length [\<lparr> x3 = 3, y3 = 3, z3 = 0::real \<rparr>, \<lparr> x3 = 7, y3 = 5, z3 = 0 \<rparr>] \<and>
   squaredMagnitude ([\<lparr> x3 = 3, y3 = 4, z3 = 0 \<rparr>, \<lparr> x3 = 0, y3 = 5, z3 = 0 \<rparr>] ! 0) = 25 \<and>
   squaredMagnitude ([\<lparr> x3 = 3, y3 = 4, z3 = 0 \<rparr>, \<lparr> x3 = 0, y3 = 5, z3 = 0 \<rparr>] ! 1) = 25 \<and>
   main_L2norm real_arith
     [\<lparr> x3 = 3, y3 = 4, z3 = 0 \<rparr>, \<lparr> x3 = 0, y3 = 5, z3 = 0 \<rparr>]
     [\<lparr> x3 = 3, y3 = 3, z3 = 0 \<rparr>, \<lparr> x3 = 7, y3 = 5, z3 = 0 \<rparr>] 2 =
     Some (documented_L2
       [\<lparr> x3 = 3, y3 = 4, z3 = 0 \<rparr>, \<lparr> x3 = 0, y3 = 5, z3 = 0 \<rparr>]
       [\<lparr> x3 = 3, y3 = 3, z3 = 0 \<rparr>, \<lparr> x3 = 7, y3 = 5, z3 = 0 \<rparr>] (nat 2)) \<and>
   documented_L2
     [\<lparr> x3 = 3, y3 = 4, z3 = 0 \<rparr>, \<lparr> x3 = 0, y3 = 5, z3 = 0 \<rparr>]
     [\<lparr> x3 = 3, y3 = 3, z3 = 0 \<rparr>, \<lparr> x3 = 7, y3 = 5, z3 = 0 \<rparr>] (nat 2) = 1 \<and>
   main_L2norm real_arith
     [\<lparr> x3 = 3, y3 = 4, z3 = 0 \<rparr>, \<lparr> x3 = 0, y3 = 5, z3 = 0 \<rparr>]
     [\<lparr> x3 = 3, y3 = 3, z3 = 0 \<rparr>, \<lparr> x3 = 7, y3 = 5, z3 = 0 \<rparr>] 2 = Some 1"
proof -
  have m: "\<forall>i < nat 2.
      squaredMagnitude ([\<lparr> x3 = 3, y3 = 4, z3 = 0::real \<rparr>, \<lparr> x3 = 0, y3 = 5, z3 = 0 \<rparr>] ! i) \<noteq> 0"
    by (simp add: less_Suc_eq numeral_2_eq_2 squaredMagnitude_def)
  have d: "documented_L2
     [\<lparr> x3 = 3, y3 = 4, z3 = 0 \<rparr>, \<lparr> x3 = 0, y3 = 5, z3 = 0 \<rparr>]
     [\<lparr> x3 = 3, y3 = 3, z3 = 0 \<rparr>, \<lparr> x3 = 7, y3 = 5, z3 = 0 \<rparr>] (nat 2) = 1"
    by (simp add: documented_L2_def squaredMagnitude_def squaredDifference_def numeral_2_eq_2)
  from division_inside_loop_equivalent [OF _ _ _ m,
      of "[\<lparr> x3 = 3, y3 = 3, z3 = 0 \<rparr>, \<lparr> x3 = 7, y3 = 5, z3 = 0 \<rparr>]"] d
  show ?thesis
    by (simp add: squaredMagnitude_def)
qed

section \<open>The error metric in floating point: zero denominators\<close>

text \<open>
  What a finite result requires: the operands of a sum, the dividend of a quotient and the
  argument of a square root were finite, and the divisor was not zero.
\<close>

lemma not_isfinite_inf_of_sign [simp]: "\<not> isfinite (inf_of_sign r)"
  by (simp add: inf_of_sign_def)

lemma isfinite_add: "isfinite (a + b) \<Longrightarrow> isfinite a \<and> isfinite b"
  by (cases a; cases b) (simp_all add: plus_ieee_def)

lemma isfinite_div_left: "isfinite (a / b) \<Longrightarrow> isfinite a"
  by (cases a; cases b) (simp_all add: divide_ieee_def split: if_splits)

lemma not_isfinite_div_zero: "\<not> isfinite (a / (0::ieee))"
  by (cases a) (simp_all add: divide_ieee_def zero_ieee_def)

lemma isfinite_sqrt: "isfinite (ieee_sqrt fmt a) \<Longrightarrow> isfinite a"
  by (cases a) simp_all

lemma errorStep_not_finite:
  "\<not> isfinite L \<Longrightarrow> \<not> isfinite (errorStep ieee_arith bodyAccel bodyAcceld numParticles i L)"
  unfolding errorStep_eq using isfinite_add by blast

lemma fold_errorStep_not_finite:
  "\<not> isfinite L \<Longrightarrow> \<not> isfinite (fold (errorStep ieee_arith bodyAccel bodyAcceld numParticles) is L)"
  by (induction "is" arbitrary: L) (simp_all add: errorStep_not_finite)

lemma errorStep_zero_reference:
  assumes "referenceSqr ieee_arith (bodyAccel ! i) = 0"
  shows "\<not> isfinite (errorStep ieee_arith bodyAccel bodyAcceld numParticles i L)"
proof
  assume "isfinite (errorStep ieee_arith bodyAccel bodyAcceld numParticles i L)"
  then have "isfinite (differenceSqr ieee_arith (bodyAccel ! i) (bodyAcceld ! i) / (0::ieee)
                        / lit ieee_arith (real_of_int numParticles))"
    unfolding errorStep_eq assms using isfinite_add by blast
  then have "isfinite (differenceSqr ieee_arith (bodyAccel ! i) (bodyAcceld ! i) / (0::ieee))"
    by (rule isfinite_div_left)
  then show False
    by (simp add: not_isfinite_div_zero)
qed

text \<open>
  C2, as amended. The loop has no special case for a reference acceleration of zero
  magnitude: it divides by the zero \<^verbatim>\<open>normalizer\<close>. When the reference acceleration of
  some body below \<open>numParticles\<close> has zero squared magnitude, the error the harness
  computes is not finite (an infinity or NaN), whatever the approximate result is.
\<close>

theorem zero_reference_not_finite:
  assumes "nat numParticles \<le> length bodyAccel" and "nat numParticles \<le> length bodyAcceld"
    and "i < nat numParticles"
    and "referenceSqr ieee_arith (bodyAccel ! i) = 0"
  shows "\<exists>e. main_L2norm ieee_arith bodyAccel bodyAcceld numParticles = Some e \<and> \<not> isfinite e"
proof -
  let ?n = "nat numParticles"
  let ?step = "errorStep ieee_arith bodyAccel bodyAcceld numParticles"
  from assms(3) have "[0..<?n] = [0..<i] @ i # [Suc i..<?n]"
    by (metis le_add1 less_imp_add_positive upt_add_eq_append upt_conv_Cons less_eq_nat.simps(1)
        add.commute)
  then have "fold ?step [0..<?n] 0 = fold ?step [Suc i..<?n] (?step i (fold ?step [0..<i] 0))"
    by simp
  moreover have "\<not> isfinite (?step i (fold ?step [0..<i] 0))"
    using assms(4) by (rule errorStep_zero_reference)
  ultimately have "\<not> isfinite (fold ?step [0..<?n] 0)"
    by (simp add: fold_errorStep_not_finite)
  then have "\<not> isfinite (ieee_sqrt binary64 (fold ?step [0..<?n] 0))"
    using isfinite_sqrt by blast
  with assms(1,2) show ?thesis
    by (simp add: main_L2norm_def Let_def ieee_ops)
qed

text \<open>
  C2, as stated, fails: one body with reference acceleration \<open>(0, 0, 0)\<close> and approximate
  acceleration \<open>(1, 0, 0)\<close> gives the error \<open>+inf\<close>.
\<close>

theorem zero_reference_counterexample:
  "main_L2norm ieee_arith [\<lparr> x3 = Finite 0, y3 = Finite 0, z3 = Finite 0 \<rparr>]
     [\<lparr> x3 = Finite 1, y3 = Finite 0, z3 = Finite 0 \<rparr>] 1 = Some PlusInf \<and> \<not> isfinite PlusInf"
  by (simp add: main_L2norm_def errorStep_def ieee_ops plus_ieee_def divide_ieee_def
      zero_ieee_def inf_of_sign_def round_to_small)

theorem zero_reference_not_finite_witness:
  "nat 2 \<le> length [\<lparr> x3 = Finite 3, y3 = Finite 4, z3 = Finite 0 \<rparr>,
                    \<lparr> x3 = Finite 0, y3 = Finite 0, z3 = Finite 0 \<rparr>] \<and>
   nat 2 \<le> length [\<lparr> x3 = Finite 3, y3 = Finite 4, z3 = Finite 0 \<rparr>,
                    \<lparr> x3 = Finite 0, y3 = Finite 1, z3 = Finite 0 \<rparr>] \<and>
   1 < nat 2 \<and>
   referenceSqr ieee_arith ([\<lparr> x3 = Finite 3, y3 = Finite 4, z3 = Finite 0 \<rparr>,
                    \<lparr> x3 = Finite 0, y3 = Finite 0, z3 = Finite 0 \<rparr>] ! 1) = 0 \<and>
   (\<exists>e. main_L2norm ieee_arith
           [\<lparr> x3 = Finite 3, y3 = Finite 4, z3 = Finite 0 \<rparr>,
            \<lparr> x3 = Finite 0, y3 = Finite 0, z3 = Finite 0 \<rparr>]
           [\<lparr> x3 = Finite 3, y3 = Finite 4, z3 = Finite 0 \<rparr>,
            \<lparr> x3 = Finite 0, y3 = Finite 1, z3 = Finite 0 \<rparr>] 2 = Some e \<and> \<not> isfinite e)"
proof -
  have r: "referenceSqr ieee_arith ([\<lparr> x3 = Finite 3, y3 = Finite 4, z3 = Finite 0 \<rparr>,
                    \<lparr> x3 = Finite 0, y3 = Finite 0, z3 = Finite 0 \<rparr>] ! 1) = 0"
    by (simp add: referenceSqr_def ieee_ops zero_ieee_def)
  from zero_reference_not_finite [of 2 _ _ 1, OF _ _ _ r] r show ?thesis
    by simp
qed

section \<open>The error metric in floating point: identical arrays\<close>

lemma nonnegative_round_to:
  assumes "wellformed fmt" and "0 \<le> r"
  shows "nonnegative (round_to fmt r)"
  using round_to_at_least [OF assms(1) representable_zero assms(2)] by auto

lemma nonnegative_fadd:
  "nonnegative a \<Longrightarrow> nonnegative b \<Longrightarrow> nonnegative (fadd ieee_arith a b)"
  by (cases a; cases b) (simp_all add: ieee_ops nonnegative_round_to)

lemma nonnegative_square: "isfinite a \<Longrightarrow> nonnegative (fmul ieee_arith a a)"
  by (cases a) (simp_all add: ieee_ops nonnegative_round_to)

lemma nonnegative_referenceSqr: "finite3 a \<Longrightarrow> nonnegative (referenceSqr ieee_arith a)"
  unfolding referenceSqr_def by (simp add: nonnegative_fadd nonnegative_square)

lemma fsub_self: "isfinite a \<Longrightarrow> fsub ieee_arith a a = Finite 0"
  by (cases a) (simp_all add: ieee_ops)

lemma differenceSqr_self: "finite3 a \<Longrightarrow> differenceSqr ieee_arith a a = Finite 0"
  unfolding differenceSqr_def by (simp add: fsub_self) (simp add: ieee_ops)

lemma zero_div_nonnegative:
  "nonnegative b \<Longrightarrow> b \<noteq> 0 \<Longrightarrow> Finite 0 / b = Finite 0"
  by (cases b) (simp_all add: divide_ieee_def zero_ieee_def)

lemma zero_div_count:
  assumes "1 \<le> numParticles"
  shows "Finite 0 / lit ieee_arith (real_of_int numParticles) = Finite 0"
proof -
  from assms have "1 \<le> real_of_int numParticles"
    by simp
  with round_to_at_least [OF wellformed_binary(2) representable64_int [of 1], of "real_of_int numParticles"]
  have "round_to binary64 (real_of_int numParticles) = PlusInf \<or>
        (\<exists>r. round_to binary64 (real_of_int numParticles) = Finite r \<and> 1 \<le> r)"
    by simp
  then show ?thesis
    by (auto simp: ieee_ops divide_ieee_def)
qed

lemma errorStep_identical:
  assumes "1 \<le> numParticles" and "bodyAcceld ! i = bodyAccel ! i" and "finite3 (bodyAccel ! i)"
    and "referenceSqr ieee_arith (bodyAccel ! i) \<noteq> 0"
  shows "errorStep ieee_arith bodyAccel bodyAcceld numParticles i (Finite 0) = Finite 0"
proof -
  have d: "differenceSqr ieee_arith (bodyAccel ! i) (bodyAcceld ! i) = Finite 0"
    using assms(2,3) by (simp add: differenceSqr_self)
  have q: "Finite 0 / referenceSqr ieee_arith (bodyAccel ! i) = Finite 0"
    using assms(3,4) by (intro zero_div_nonnegative nonnegative_referenceSqr)
  show ?thesis
    unfolding errorStep_eq d q zero_div_count [OF assms(1)] by (simp add: plus_ieee_def)
qed

lemma fold_errorStep_identical:
  assumes "1 \<le> numParticles"
    and "\<forall>i \<in> set is. bodyAcceld ! i = bodyAccel ! i \<and> finite3 (bodyAccel ! i) \<and>
           referenceSqr ieee_arith (bodyAccel ! i) \<noteq> 0"
  shows "fold (errorStep ieee_arith bodyAccel bodyAcceld numParticles) is (Finite 0) = Finite 0"
  using assms(2)
proof (induction "is")
  case Nil
  then show ?case by simp
next
  case (Cons i "is")
  then show ?case
    using assms(1) by (simp add: errorStep_identical del: finite3.simps)
qed

text \<open>
  C6, as amended. For \<open>N \<ge> 1\<close>, when the two arrays agree on the first \<open>N\<close> bodies, the
  components are finite and the squared magnitude of every reference acceleration, as the
  loop computes it in \<^verbatim>\<open>float\<close> (so after underflow), is not zero, the error is exactly \<open>0\<close>.
\<close>

theorem identical_arrays_zero_error:
  assumes "1 \<le> numParticles"
    and "nat numParticles \<le> length bodyAccel" and "nat numParticles \<le> length bodyAcceld"
    and "\<forall>i < nat numParticles. bodyAcceld ! i = bodyAccel ! i \<and> finite3 (bodyAccel ! i) \<and>
           referenceSqr ieee_arith (bodyAccel ! i) \<noteq> 0"
  shows "main_L2norm ieee_arith bodyAccel bodyAcceld numParticles = Some 0"
proof -
  have "fold (errorStep ieee_arith bodyAccel bodyAcceld numParticles) [0..<nat numParticles] (Finite 0)
          = Finite 0"
    using assms(1,4) by (intro fold_errorStep_identical) simp_all
  with assms(2,3) show ?thesis
    by (simp add: main_L2norm_def Let_def ieee_ops zero_ieee_def)
qed

text \<open>
  C6, as stated, fails: for one body whose acceleration is \<open>(0, 0, 0)\<close> in both arrays the
  loop computes \<open>0 / 0\<close>, and the error is NaN.
\<close>

theorem identical_arrays_counterexample:
  "main_L2norm ieee_arith [\<lparr> x3 = Finite 0, y3 = Finite 0, z3 = Finite 0 \<rparr>]
     [\<lparr> x3 = Finite 0, y3 = Finite 0, z3 = Finite 0 \<rparr>] 1 = Some NaN \<and> NaN \<noteq> (0::ieee)"
  by (simp add: main_L2norm_def errorStep_def ieee_ops plus_ieee_def divide_ieee_def
      zero_ieee_def inf_of_sign_def round_to_small)

text \<open>
  With one body whose acceleration is \<open>(2\<^sup>-\<^sup>1\<^sup>0\<^sup>0, 0, 0)\<close> in both arrays, the squared magnitude
  underflows to zero in \<^verbatim>\<open>float\<close>, and the error is \<open>0 / 0\<close>, that is NaN.
\<close>

lemma underflow_identical_arrays:
  "main_L2norm ieee_arith [\<lparr> x3 = Finite (1 / 2 ^ 100), y3 = Finite 0, z3 = Finite 0 \<rparr>]
     [\<lparr> x3 = Finite (1 / 2 ^ 100), y3 = Finite 0, z3 = Finite 0 \<rparr>] 1 = Some NaN"
  using underflow_example
  by (simp add: main_L2norm_def errorStep_def ieee_ops plus_ieee_def divide_ieee_def
      zero_ieee_def inf_of_sign_def round_to_small)

theorem identical_arrays_zero_error_witness:
  "(1::int) \<le> 2 \<and>
   nat 2 \<le> length [\<lparr> x3 = Finite 3, y3 = Finite 4, z3 = Finite 0 \<rparr>,
                    \<lparr> x3 = Finite 0, y3 = Finite (- 1), z3 = Finite 2 \<rparr>] \<and>
   finite3 \<lparr> x3 = Finite 3, y3 = Finite 4, z3 = Finite 0 \<rparr> \<and>
   finite3 \<lparr> x3 = Finite 0, y3 = Finite (- 1), z3 = Finite 2 \<rparr> \<and>
   referenceSqr ieee_arith \<lparr> x3 = Finite 3, y3 = Finite 4, z3 = Finite 0 \<rparr> = Finite 25 \<and>
   referenceSqr ieee_arith \<lparr> x3 = Finite 0, y3 = Finite (- 1), z3 = Finite 2 \<rparr> = Finite 5 \<and>
   main_L2norm ieee_arith
     [\<lparr> x3 = Finite 3, y3 = Finite 4, z3 = Finite 0 \<rparr>,
      \<lparr> x3 = Finite 0, y3 = Finite (- 1), z3 = Finite 2 \<rparr>]
     [\<lparr> x3 = Finite 3, y3 = Finite 4, z3 = Finite 0 \<rparr>,
      \<lparr> x3 = Finite 0, y3 = Finite (- 1), z3 = Finite 2 \<rparr>] 2 = Some 0"
proof -
  have r: "referenceSqr ieee_arith \<lparr> x3 = Finite 3, y3 = Finite 4, z3 = Finite 0 \<rparr> = Finite 25"
    "referenceSqr ieee_arith \<lparr> x3 = Finite 0, y3 = Finite (- 1), z3 = Finite 2 \<rparr> = Finite 5"
    by (simp_all add: referenceSqr_def ieee_ops round_to_small)
  have "\<forall>i < nat 2. [\<lparr> x3 = Finite 3, y3 = Finite 4, z3 = Finite 0 \<rparr>,
                      \<lparr> x3 = Finite 0, y3 = Finite (- 1), z3 = Finite 2 \<rparr>] ! i
                   = [\<lparr> x3 = Finite 3, y3 = Finite 4, z3 = Finite 0 \<rparr>,
                      \<lparr> x3 = Finite 0, y3 = Finite (- 1), z3 = Finite 2 \<rparr>] ! i \<and>
          finite3 ([\<lparr> x3 = Finite 3, y3 = Finite 4, z3 = Finite 0 \<rparr>,
                      \<lparr> x3 = Finite 0, y3 = Finite (- 1), z3 = Finite 2 \<rparr>] ! i) \<and>
          referenceSqr ieee_arith ([\<lparr> x3 = Finite 3, y3 = Finite 4, z3 = Finite 0 \<rparr>,
                      \<lparr> x3 = Finite 0, y3 = Finite (- 1), z3 = Finite 2 \<rparr>] ! i) \<noteq> 0"
    by (simp add: less_Suc_eq numeral_2_eq_2 r zero_ieee_def)
  from identical_arrays_zero_error [OF _ _ _ this] r show ?thesis
    by simp
qed

section \<open>The direct force evaluator in floating point\<close>

text \<open>
  The softening \<^verbatim>\<open>0.1f\<close> lies between \<open>2\<^sup>-\<^sup>4\<close> and \<open>2\<^sup>-\<^sup>3\<close>, and its square, as the \<^verbatim>\<open>float\<close>
  product computes it, between \<open>2\<^sup>-\<^sup>8\<close> and \<open>2\<^sup>-\<^sup>6\<close>: the squared distance is never zero.
\<close>

lemma softening_between: "between (1 / 2 ^ 4) (1 / 2 ^ 3) (flit ieee_arith (1 / 10))"
  unfolding ieee_ops
  by (rule round_to_between [OF wellformed_binary(1) representable32_inverse_power
        representable32_inverse_power]) simp_all

lemma softening_sqr_between:
  "between (1 / 2 ^ 8) (1 / 2 ^ 6)
     (fmul ieee_arith (flit ieee_arith (1 / 10)) (flit ieee_arith (1 / 10)))"
proof -
  have "representable binary32 (1 / 2 ^ 4 * (1 / 2 ^ 4))"
    using representable32_inverse_power [of 8] by simp
  moreover have "representable binary32 (1 / 2 ^ 3 * (1 / 2 ^ 3))"
    using representable32_inverse_power [of 6] by simp
  ultimately have "between (1 / 2 ^ 4 * (1 / 2 ^ 4)) (1 / 2 ^ 3 * (1 / 2 ^ 3))
     (ieee_mul binary32 (flit ieee_arith (1 / 10)) (flit ieee_arith (1 / 10)))"
    by (intro between_mul_nonneg [OF wellformed_binary(1) softening_between softening_between])
       simp_all
  then show ?thesis
    by (simp add: ieee_ops)
qed

lemma sqrt_power_even: "sqrt (2 ^ (2 * k)) = 2 ^ k"
  by (rule real_sqrt_unique) (simp_all add: power_mult power2_eq_square flip: power_mult_distrib)

lemma sqrt_inverse_256: "sqrt (1 / 2 ^ 8) = 1 / 2 ^ 4"
  by (rule real_sqrt_unique) (simp_all add: power2_eq_square)

text \<open>The bounds of the previous section, for the operations of \<^verbatim>\<open>float\<close>.\<close>

lemma fadd_between:
  assumes "between l1 h1 a" and "between l2 h2 b"
    and "representable binary32 (l1 + l2)" and "representable binary32 (h1 + h2)"
  shows "between (l1 + l2) (h1 + h2) (fadd ieee_arith a b)"
  unfolding ieee_ops using wellformed_binary(1) assms by (rule between_add)

lemma fsub_between:
  assumes "between (- c) c a" and "between (- c) c b" and "representable binary32 (c + c)"
  shows "between (- (c + c)) (c + c) (fsub ieee_arith a b)"
  unfolding ieee_ops using wellformed_binary(1) assms by (rule between_sub)

lemma fmul_between:
  assumes "between (- c) c a" and "between (- d) d b" and "representable binary32 (c * d)"
  shows "between (- (c * d)) (c * d) (fmul ieee_arith a b)"
  unfolding ieee_ops using wellformed_binary(1) assms by (rule between_mul)

lemma fmul_between_nonneg:
  assumes "between 0 h1 a" and "between 0 h2 b" and "representable binary32 (h1 * h2)"
  shows "between 0 (h1 * h2) (fmul ieee_arith a b)"
  using between_mul_nonneg [OF wellformed_binary(1) assms(1,2)] assms(3)
  by (simp add: ieee_ops representable_zero)

lemma fsquare_between:
  assumes "between (- c) c a" and "representable binary32 (c * c)"
  shows "between 0 (c * c) (fmul ieee_arith a a)"
  unfolding ieee_ops using wellformed_binary(1) assms by (rule between_square)

lemma power_double: "(2::real) ^ (2 * b + k) = 2 ^ b * 2 ^ b * 2 ^ k"
  by (simp add: mult_2 power_add)

text \<open>
  The contribution of one body, for coordinates of magnitude at most \<open>2\<^sup>b\<close> and masses of
  magnitude at most \<open>2\<^sup>m\<close>. Every bound is a number of the format, so it holds after
  each rounding: the differences are at most \<open>2\<^sup>b\<^sup>+\<^sup>1\<close>, the squared distance is between
  \<open>2\<^sup>-\<^sup>8\<close> and \<open>2\<^sup>2\<^sup>b\<^sup>+\<^sup>5\<close>, the inverse distance at most \<open>16\<close>, its cube at most \<open>4096\<close>,
  and each component of the contribution at most \<open>2\<^sup>b\<^sup>+\<^sup>m\<^sup>+\<^sup>1\<^sup>3\<close>.
\<close>

lemma pairAccel_within:
  assumes i: "i < length rpos" and j: "j < length rpos"
    and bi: "withinBox (2 ^ b) (2 ^ m) (rpos ! i)" and bj: "withinBox (2 ^ b) (2 ^ m) (rpos ! j)"
    and b: "b \<le> 61" and bm: "b + m \<le> 91"
  shows "within3 (2 ^ (b + m + 13)) (pairAccel ieee_arith (map toIeee4 rpos) i j)"
proof -
  let ?p = "rpos ! i" and ?q = "rpos ! j"
  note w = wellformed_binary(1)
  define C :: real where "C = 2 ^ b + 2 ^ b"
  define D :: real where "D = C * C"
  define M :: real where "M = 2 ^ m"
  have C: "C = 2 ^ Suc b"
    by (simp add: C_def)
  have D: "D = 2 ^ (2 * b + 2)"
    unfolding D_def C_def power_double by (simp add: algebra_simps)
  have D2: "D + D = 2 ^ (2 * b + 3)"
    unfolding D power_double by simp
  have D4: "D + D + (D + D) = 2 ^ (2 * b + 4)"
    unfolding D power_double by simp
  have D8: "D + D + (D + D) + (D + D + (D + D)) = 2 ^ (2 * b + 5)"
    unfolding D power_double by simp
  have D16: "(2::real) ^ (2 * b + 6) = 16 * D"
    unfolding D power_double by simp
  have D1: "1 \<le> D"
    unfolding D by (rule one_le_power) simp
  have rC: "representable binary32 (2 ^ b + 2 ^ b)"
    unfolding C [unfolded C_def] using b by (intro representable32_power) simp
  have rD: "representable binary32 (C * C)"
    unfolding D [unfolded D_def] using b by (intro representable32_power) simp
  have rD2: "representable binary32 (D + D)"
    unfolding D2 using b by (intro representable32_power) simp
  have rD4: "representable binary32 (D + D + (D + D))"
    unfolding D4 using b by (intro representable32_power) simp
  have rD8: "representable binary32 (D + D + (D + D) + (D + D + (D + D)))"
    unfolding D8 using b by (intro representable32_power) simp
  define dx where "dx = fsub ieee_arith (Finite (x4 ?q)) (Finite (x4 ?p))"
  define dy where "dy = fsub ieee_arith (Finite (y4 ?q)) (Finite (y4 ?p))"
  define dz where "dz = fsub ieee_arith (Finite (z4 ?q)) (Finite (z4 ?p))"
  define distSqr where "distSqr =
    fadd ieee_arith
      (fadd ieee_arith (fadd ieee_arith (fmul ieee_arith dx dx) (fmul ieee_arith dy dy))
         (fmul ieee_arith dz dz))
      (fmul ieee_arith (flit ieee_arith (1 / 10)) (flit ieee_arith (1 / 10)))"
  define invDist where "invDist = flt ieee_arith (1 / sqrt_op ieee_arith distSqr)"
  define invDistCube where "invDistCube = fmul ieee_arith (fmul ieee_arith invDist invDist) invDist"
  define s where "s = fmul ieee_arith (Finite (w4 ?q)) invDistCube"
  from bi bj have box:
    "between (- (2 ^ b)) (2 ^ b) (Finite (x4 ?p))" "between (- (2 ^ b)) (2 ^ b) (Finite (x4 ?q))"
    "between (- (2 ^ b)) (2 ^ b) (Finite (y4 ?p))" "between (- (2 ^ b)) (2 ^ b) (Finite (y4 ?q))"
    "between (- (2 ^ b)) (2 ^ b) (Finite (z4 ?p))" "between (- (2 ^ b)) (2 ^ b) (Finite (z4 ?q))"
    "between (- M) M (Finite (w4 ?q))"
    unfolding withinBox_def M_def by (simp_all add: abs_le_iff)
  have d: "between (- C) C dx" "between (- C) C dy" "between (- C) C dz"
    unfolding dx_def dy_def dz_def C_def
    using box rC by (simp_all only: fsub_between)
  have sq: "between 0 D (fmul ieee_arith dx dx)" "between 0 D (fmul ieee_arith dy dy)"
    "between 0 D (fmul ieee_arith dz dz)"
    unfolding D_def
    using d rD by (simp_all only: fsquare_between)
  have r0: "representable binary32 (0 + 0)"
    by (simp add: representable_zero)
  from fadd_between [OF sq(1,2) r0 rD2]
  have s1: "between 0 (D + D) (fadd ieee_arith (fmul ieee_arith dx dx) (fmul ieee_arith dy dy))"
    by (simp only: add_0)
  from sq(3) have zz: "between 0 (D + D) (fmul ieee_arith dz dz)"
    by (rule between_weaken) (use D1 in simp_all)
  from fadd_between [OF s1 zz r0 rD4]
  have s2: "between 0 (D + D + (D + D))
     (fadd ieee_arith (fadd ieee_arith (fmul ieee_arith dx dx) (fmul ieee_arith dy dy))
        (fmul ieee_arith dz dz))"
    by (simp only: add_0)
  from softening_sqr_between
  have so: "between (1 / 2 ^ 8) (D + D + (D + D))
     (fmul ieee_arith (flit ieee_arith (1 / 10)) (flit ieee_arith (1 / 10)))"
    by (rule between_weaken) (use D1 in simp_all)
  have r8: "representable binary32 (0 + 1 / 2 ^ 8)"
    unfolding add_0 by (rule representable32_inverse_power) simp
  from fadd_between [OF s2 so r8 rD8]
  have "between (1 / 2 ^ 8) (D + D + (D + D) + (D + D + (D + D))) distSqr"
    unfolding distSqr_def by (simp only: add_0)
  then have ds: "between (1 / 2 ^ 8) (2 ^ (2 * (b + 3))) distSqr"
    by (rule between_weaken) (use D1 in \<open>simp_all add: D16\<close>)
  have r4: "representable binary64 (sqrt (1 / 2 ^ 8))"
    unfolding sqrt_inverse_256 by (rule representable64_inverse_power) simp
  have rb: "representable binary64 (sqrt (2 ^ (2 * (b + 3))))"
    unfolding sqrt_power_even using b by (intro representable64_power) simp
  have "between (sqrt (1 / 2 ^ 8)) (sqrt (2 ^ (2 * (b + 3)))) (ieee_sqrt binary64 distSqr)"
    using wellformed_binary(2) ds _ r4 rb by (rule between_sqrt) simp
  then have q: "between (1 / 2 ^ 4) (2 ^ (b + 3)) (ieee_sqrt binary64 distSqr)"
    by (simp only: sqrt_power_even sqrt_inverse_256)
  have r16: "representable binary64 (1 / (1 / 2 ^ 4))"
    using representable64_power [of 4] by simp
  have p16: "(0::real) < 1 / 2 ^ 4"
    by simp
  from between_inverse [OF wellformed_binary(2) q p16 r16]
  have "between 0 16 (1 / sqrt_op ieee_arith distSqr)"
    by (simp add: ieee_ops divide_ieee_def one_ieee_def)
  then have inv: "between 0 16 invDist"
    unfolding invDist_def ieee_ops(4)
    using representable32_int [of 16] by (intro between_to_float) (simp_all add: representable_zero)
  have "representable binary32 (16 * 16)"
    using representable32_int [of 256] by simp
  with inv inv have "between 0 (16 * 16) (fmul ieee_arith invDist invDist)"
    by (rule fmul_between_nonneg)
  then have i2: "between 0 256 (fmul ieee_arith invDist invDist)"
    by simp
  have "representable binary32 (256 * 16)"
    using representable32_int [of 4096] by simp
  with i2 inv have "between 0 (256 * 16) invDistCube"
    unfolding invDistCube_def by (rule fmul_between_nonneg)
  then have i3: "between (- 4096) 4096 invDistCube"
    by (rule between_weaken) simp_all
  have M4: "M * 4096 = 2 ^ (m + 12)"
    by (simp add: M_def power_add)
  have rs: "representable binary32 (M * 4096)"
    unfolding M4 using bm by (intro representable32_power) simp
  have sb: "between (- (M * 4096)) (M * 4096) s"
    unfolding s_def using box(7) i3 rs by (rule fmul_between)
  have T: "C * (M * 4096) = 2 ^ (b + m + 13)"
    by (simp add: C M4 power_add)
  have rT: "representable binary32 (C * (M * 4096))"
    unfolding T using bm by (intro representable32_power) simp
  have c: "between (- (C * (M * 4096))) (C * (M * 4096)) (fmul ieee_arith dx s)"
    "between (- (C * (M * 4096))) (C * (M * 4096)) (fmul ieee_arith dy s)"
    "between (- (C * (M * 4096))) (C * (M * 4096)) (fmul ieee_arith dz s)"
    using d sb rT by (simp_all only: fmul_between)
  have "pairAccel ieee_arith (map toIeee4 rpos) i j
          = \<lparr> x3 = fmul ieee_arith dx s, y3 = fmul ieee_arith dy s, z3 = fmul ieee_arith dz s \<rparr>"
    unfolding pairAccel_def Let_def dx_def dy_def dz_def s_def invDistCube_def invDist_def distSqr_def
    using i j by (simp add: toIeee4_def)
  with c show ?thesis
    by (simp add: within3_def T)
qed

text \<open>
  The accumulation. After \<open>k\<close> contributions of magnitude at most \<open>T = 2\<^sup>t\<close> the partial sum
  is at most \<open>k * T\<close> in magnitude: \<open>k * T\<close> is a number of the format for \<open>k < 2\<^sup>2\<^sup>4\<close> and
  \<open>t \<le> 104\<close>, so the rounding of each addition does not pass it.
\<close>

lemma within3_weaken: "within3 K a \<Longrightarrow> K \<le> K' \<Longrightarrow> within3 K' a"
  unfolding within3_def by (auto intro: between_weaken)

lemma within3_finite3: "within3 K a \<Longrightarrow> finite3 a"
  unfolding within3_def by (auto intro: between_isfinite)

lemma accumulate_within:
  assumes a: "within3 (real k * 2 ^ t) a" and c: "within3 (2 ^ t) c"
    and t: "t \<le> 104" and k: "Suc k < 2 ^ 24"
  shows "within3 (real (Suc k) * 2 ^ t) (accumulate ieee_arith a c)"
proof -
  let ?T = "(2::real) ^ t"
  have e: "real k * ?T + ?T = real (Suc k) * ?T" "- (real k * ?T) + - ?T = - (real (Suc k) * ?T)"
    by (simp_all add: algebra_simps)
  have r: "representable binary32 (real k * ?T + ?T)"
    unfolding e using k t by (rule representable32_multiple)
  then have r': "representable binary32 (- (real k * ?T) + - ?T)"
    unfolding e by (simp only: representable_minus)
  have "between (- (real k * ?T) + - ?T) (real k * ?T + ?T) (fadd ieee_arith x y)"
    if "between (- (real k * ?T)) (real k * ?T) x" and "between (- ?T) ?T y" for x y
    using that r' r by (rule fadd_between)
  then have "between (- (real (Suc k) * ?T)) (real (Suc k) * ?T) (fadd ieee_arith x y)"
    if "between (- (real k * ?T)) (real k * ?T) x" and "between (- ?T) ?T y" for x y
    using that unfolding e by blast
  with a c show ?thesis
    unfolding within3_def accumulate_def by simp
qed

lemma fold_accumulate_within:
  assumes t: "t \<le> 104"
    and c: "\<forall>j \<in> set js. j \<noteq> i \<longrightarrow> within3 (2 ^ t) (c j)"
    and a0: "within3 (real k * 2 ^ t) a0"
    and n: "k + length js < 2 ^ 24"
  shows "within3 (real (k + length js) * 2 ^ t)
           (fold (\<lambda>j a. if i = j then a else accumulate ieee_arith a (c j)) js a0)"
  using c a0 n
proof (induction js arbitrary: a0 k)
  case Nil
  then show ?case by simp
next
  case (Cons j js)
  from Cons.prems(3) have k: "Suc k < 2 ^ 24" and n: "Suc k + length js < 2 ^ 24"
    by simp_all
  from Cons.prems(1) have cs: "\<forall>j \<in> set js. j \<noteq> i \<longrightarrow> within3 (2 ^ t) (c j)"
    by simp
  have "within3 (real (Suc k) * 2 ^ t) (if i = j then a0 else accumulate ieee_arith a0 (c j))"
  proof (cases "i = j")
    case True
    have "real k * (2::real) ^ t \<le> real (Suc k) * 2 ^ t"
      by (intro mult_right_mono) simp_all
    with Cons.prems(2) True show ?thesis
      by (simp add: within3_weaken)
  next
    case False
    with Cons.prems(1) have "within3 (2 ^ t) (c j)"
      by simp
    with Cons.prems(2) have "within3 (real (Suc k) * 2 ^ t) (accumulate ieee_arith a0 (c j))"
      using t k by (rule accumulate_within)
    with False show ?thesis
      by simp
  qed
  from Cons.IH [OF cs this n] show ?case
    by simp
qed

lemma accelOn_within:
  assumes n: "n \<le> length rpos" and i: "i < n"
    and box: "\<forall>j < n. withinBox (2 ^ b) (2 ^ m) (rpos ! j)"
    and b: "b \<le> 61" and bm: "b + m \<le> 91" and N: "n < 2 ^ 24"
  shows "within3 (real n * 2 ^ (b + m + 13)) (accelOn ieee_arith (map toIeee4 rpos) n i)"
proof -
  from bm have t: "b + m + 13 \<le> 104"
    by simp
  have c: "\<forall>j \<in> set [0..<n]. j \<noteq> i \<longrightarrow>
             within3 (2 ^ (b + m + 13)) (pairAccel ieee_arith (map toIeee4 rpos) i j)"
    using pairAccel_within [OF _ _ _ _ b bm, of i rpos] n i box by simp
  have z: "within3 (real 0 * 2 ^ (b + m + 13)) \<lparr> x3 = 0, y3 = 0, z3 = 0 \<rparr>"
    by (simp add: within3_def zero_ieee_def)
  from N have "0 + length [0..<n] < 2 ^ 24"
    by simp
  from fold_accumulate_within [OF t c z this] show ?thesis
    by (simp add: accelOn_def)
qed

text \<open>
  C5, as amended. For fewer than \<open>2\<^sup>2\<^sup>4\<close> bodies with coordinates of magnitude at most \<open>2\<^sup>b\<close>
  and masses of magnitude at most \<open>2\<^sup>m\<close> (a mass of zero included), where \<open>b \<le> 61\<close> and
  \<open>b + m \<le> 91\<close>, the evaluator returns and every component of every acceleration is
  finite, in \<^verbatim>\<open>float\<close> arithmetic with its rounding. The squared distance is at least
  \<open>2\<^sup>-\<^sup>8\<close> by the softening (\<open>softening_sqr_between\<close>), so no division is by zero.
\<close>

theorem bounded_acceleration_finite:
  assumes "nat numParticles \<le> length rpos" and "nat numParticles \<le> length bodyAccel"
    and "\<forall>j < nat numParticles. withinBox (2 ^ b) (2 ^ m) (rpos ! j)"
    and "b \<le> 61" and "b + m \<le> 91" and "nat numParticles < 2 ^ 24"
  shows "\<exists>acc. calculateAccelerations ieee_arith (map toIeee4 rpos) bodyAccel numParticles = Some acc \<and>
           (\<forall>i < nat numParticles. finite3 (acc ! i))"
proof -
  from assms(1,2) obtain acc
    where acc: "calculateAccelerations ieee_arith (map toIeee4 rpos) bodyAccel numParticles = Some acc"
    using calculateAccelerations_Some [of numParticles "map toIeee4 rpos" bodyAccel ieee_arith]
    by auto
  have "finite3 (acc ! i)" if i: "i < nat numParticles" for i
  proof -
    from i assms(2) have "i < length bodyAccel"
      by simp
    with calculateAccelerations_nth(1) [OF acc, of i] i
    have "acc ! i = accelOn ieee_arith (map toIeee4 rpos) (nat numParticles) i"
      by simp
    moreover have "within3 (real (nat numParticles) * 2 ^ (b + m + 13))
                     (accelOn ieee_arith (map toIeee4 rpos) (nat numParticles) i)"
      using assms(1) i assms(3-6) by (rule accelOn_within)
    ultimately show ?thesis
      by (simp only: within3_finite3)
  qed
  with acc show ?thesis
    by blast
qed

text \<open>
  Two bodies of mass \<open>1\<close> at \<open>x = 2\<^sup>1\<^sup>2\<^sup>7\<close> and \<open>x = - 2\<^sup>1\<^sup>2\<^sup>7\<close> (both finite \<^verbatim>\<open>float\<close>
  values). The difference \<open>dx\<close> overflows to an infinity, so does \<open>distSqr\<close>, \<open>invDist\<close> is
  \<open>0\<close>, and \<open>dx * s\<close> is \<open>inf * 0\<close>, that is NaN.
\<close>

lemma round_to_far:
  "round_to binary32 (- 340282366920938463463374607431768211456) = MinusInf"
  "round_to binary32 340282366920938463463374607431768211456 = PlusInf"
  using round_to_overflow [OF wellformed_binary(1), of 340282366920938463463374607431768211456]
  by (simp_all add: binary32_def)

lemma far_apart_accelerations:
  "calculateAccelerations ieee_arith
     [\<lparr> x4 = Finite (2 ^ 127), y4 = Finite 0, z4 = Finite 0, w4 = Finite 1 \<rparr>,
      \<lparr> x4 = Finite (- (2 ^ 127)), y4 = Finite 0, z4 = Finite 0, w4 = Finite 1 \<rparr>]
     [\<lparr> x3 = Finite 0, y3 = Finite 0, z3 = Finite 0 \<rparr>, \<lparr> x3 = Finite 0, y3 = Finite 0, z3 = Finite 0 \<rparr>] 2
   = Some [\<lparr> x3 = NaN, y3 = Finite 0, z3 = Finite 0 \<rparr>, \<lparr> x3 = NaN, y3 = Finite 0, z3 = Finite 0 \<rparr>]"
proof -
  from softening_sqr_between obtain v
    where v: "fmul ieee_arith (flit ieee_arith (1 / 10)) (flit ieee_arith (1 / 10)) = Finite v"
    by (rule between_cases)
  have m: "ieee_mul binary32 (round_to binary32 (1 / 10)) (round_to binary32 (1 / 10)) = Finite v"
    using v by (simp add: ieee_ops)
  show ?thesis
    by (simp add: calculateAccelerations_def clearAccelerations_def pairInteraction_def Let_def
        ieee_ops m divide_ieee_def one_ieee_def zero_ieee_def inf_of_sign_def numeral_2_eq_2
        round_to_far round_to_small)
qed

text \<open>
  C5, as stated, fails: the positions and masses above are finite, and the first component
  of both accelerations is NaN.
\<close>

theorem overflow_counterexample:
  "calculateAccelerations ieee_arith
     [\<lparr> x4 = Finite (2 ^ 127), y4 = Finite 0, z4 = Finite 0, w4 = Finite 1 \<rparr>,
      \<lparr> x4 = Finite (- (2 ^ 127)), y4 = Finite 0, z4 = Finite 0, w4 = Finite 1 \<rparr>]
     [\<lparr> x3 = Finite 0, y3 = Finite 0, z3 = Finite 0 \<rparr>, \<lparr> x3 = Finite 0, y3 = Finite 0, z3 = Finite 0 \<rparr>] 2
   = Some [\<lparr> x3 = NaN, y3 = Finite 0, z3 = Finite 0 \<rparr>, \<lparr> x3 = NaN, y3 = Finite 0, z3 = Finite 0 \<rparr>] \<and>
   \<not> isfinite NaN"
  using far_apart_accelerations by simp

theorem bounded_acceleration_finite_witness:
  "nat 2 \<le> length [\<lparr> x4 = 0, y4 = 0, z4 = 0, w4 = 3 \<rparr>, \<lparr> x4 = 1 / 4, y4 = 0, z4 = 0, w4 = 5::real \<rparr>] \<and>
   nat 2 \<le> length [\<lparr> x3 = NaN, y3 = PlusInf, z3 = Finite 9 \<rparr>, \<lparr> x3 = Finite 1, y3 = Finite 1, z3 = MinusInf \<rparr>] \<and>
   withinBox (2 ^ 0) (2 ^ 3) \<lparr> x4 = 0, y4 = 0, z4 = 0, w4 = 3 \<rparr> \<and>
   withinBox (2 ^ 0) (2 ^ 3) \<lparr> x4 = 1 / 4, y4 = 0, z4 = 0, w4 = 5 \<rparr> \<and>
   (0::nat) \<le> 61 \<and> (0::nat) + 3 \<le> 91 \<and> nat 2 < 2 ^ 24 \<and>
   (\<exists>acc. calculateAccelerations ieee_arith
       (map toIeee4 [\<lparr> x4 = 0, y4 = 0, z4 = 0, w4 = 3 \<rparr>, \<lparr> x4 = 1 / 4, y4 = 0, z4 = 0, w4 = 5 \<rparr>])
       [\<lparr> x3 = NaN, y3 = PlusInf, z3 = Finite 9 \<rparr>, \<lparr> x3 = Finite 1, y3 = Finite 1, z3 = MinusInf \<rparr>] 2
       = Some acc \<and>
     (\<forall>i < nat 2. finite3 (acc ! i)))"
proof -
  have b: "\<forall>j < nat 2. withinBox (2 ^ 0) (2 ^ 3)
      ([\<lparr> x4 = 0, y4 = 0, z4 = 0, w4 = 3 \<rparr>, \<lparr> x4 = 1 / 4, y4 = 0, z4 = 0, w4 = 5::real \<rparr>] ! j)"
    by (simp add: less_Suc_eq numeral_2_eq_2 withinBox_def)
  from bounded_acceleration_finite [OF _ _ b,
      of "[\<lparr> x3 = NaN, y3 = PlusInf, z3 = Finite 9 \<rparr>, \<lparr> x3 = Finite 1, y3 = Finite 1, z3 = MinusInf \<rparr>]"]
  show ?thesis
    by (simp add: withinBox_def)
qed

text \<open>
  C1, as stated for the \<^verbatim>\<open>float\<close> code, fails: for the two bodies above the pairwise sum is
  a real number, and the evaluator returns NaN.
\<close>

theorem exact_sum_counterexample:
  "calculateAccelerations ieee_arith
     (map toIeee4 [\<lparr> x4 = 2 ^ 127, y4 = 0, z4 = 0, w4 = 1 \<rparr>,
                   \<lparr> x4 = - (2 ^ 127), y4 = 0, z4 = 0, w4 = 1 \<rparr>])
     [\<lparr> x3 = Finite 0, y3 = Finite 0, z3 = Finite 0 \<rparr>, \<lparr> x3 = Finite 0, y3 = Finite 0, z3 = Finite 0 \<rparr>] 2
   = Some [\<lparr> x3 = NaN, y3 = Finite 0, z3 = Finite 0 \<rparr>, \<lparr> x3 = NaN, y3 = Finite 0, z3 = Finite 0 \<rparr>] \<and>
   [\<lparr> x3 = NaN, y3 = Finite 0, z3 = Finite 0 \<rparr>, \<lparr> x3 = NaN, y3 = Finite 0, z3 = Finite 0 \<rparr>] ! 0
     \<noteq> toIeee3 (pairwiseSum [\<lparr> x4 = 2 ^ 127, y4 = 0, z4 = 0, w4 = 1 \<rparr>,
                              \<lparr> x4 = - (2 ^ 127), y4 = 0, z4 = 0, w4 = 1 \<rparr>] (nat 2) 0)"
  using far_apart_accelerations by (simp add: toIeee4_def toIeee3_def)

section \<open>The initial condition generator: the binary system\<close>

lemma binaryPlanet_update:
  assumes "\<forall>a b g. a \<le> fst (uniform a b g)"
  shows "\<exists>P V g'. binaryPlanet real_arith uniform i (pos, vel, g) = (pos[i := P], vel[i := V], g') \<and>
           1 / 10 \<le> w4 P"
proof -
  obtain angle g1 where a: "uniform 0 (2 * pi) g = (angle, g1)"
    by (cases "uniform 0 (2 * pi) g")
  obtain radius g2 where r: "uniform 3 10 g1 = (radius, g2)"
    by (cases "uniform 3 10 g1")
  obtain t g3 where t: "uniform 0 (2 * pi) g2 = (t, g3)"
    by (cases "uniform 0 (2 * pi) g2")
  obtain m g4 where m: "uniform (1 / 10) (1 / 2) g3 = (m, g4)"
    by (cases "uniform (1 / 10) (1 / 2) g3")
  from assms [rule_format, of "1 / 10" "1 / 2" g3] m have "1 / 10 \<le> m"
    by simp
  then show ?thesis
    unfolding binaryPlanet_def a r t m Let_def prod.case
    by (intro exI conjI) (rule refl, simp)
qed

lemma fold_binaryPlanet:
  assumes u: "\<forall>a b g. a \<le> fst (uniform a b g)"
    and "n \<le> length pos"
  shows "\<exists>pos' vel' g'. fold (binaryPlanet real_arith uniform) [2..<n] (pos, vel, g) = (pos', vel', g') \<and>
           length pos' = length pos \<and> length vel' = length vel \<and>
           pos' ! 0 = pos ! 0 \<and> pos' ! 1 = pos ! 1 \<and> vel' ! 0 = vel ! 0 \<and> vel' ! 1 = vel ! 1 \<and>
           (\<forall>i. 2 \<le> i \<and> i < n \<longrightarrow> 1 / 10 \<le> w4 (pos' ! i))"
  using assms(2)
proof (induction n)
  case 0
  then show ?case by simp
next
  case (Suc n)
  show ?case
  proof (cases "2 \<le> n")
    case False
    then have "[2..<Suc n] = []"
      by simp
    with False show ?thesis
      by auto
  next
    case True
    from Suc obtain pos' vel' g' where
      f: "fold (binaryPlanet real_arith uniform) [2..<n] (pos, vel, g) = (pos', vel', g')"
      and l: "length pos' = length pos" "length vel' = length vel"
      and k: "pos' ! 0 = pos ! 0" "pos' ! 1 = pos ! 1" "vel' ! 0 = vel ! 0" "vel' ! 1 = vel ! 1"
      and w: "\<forall>i. 2 \<le> i \<and> i < n \<longrightarrow> 1 / 10 \<le> w4 (pos' ! i)"
      by auto
    from binaryPlanet_update [OF u, of n pos' vel' g'] obtain P V g''
      where s: "binaryPlanet real_arith uniform n (pos', vel', g') = (pos'[n := P], vel'[n := V], g'')"
        and P: "1 / 10 \<le> w4 P"
      by blast
    from True have "[2..<Suc n] = [2..<n] @ [n]"
      by simp
    then have "fold (binaryPlanet real_arith uniform) [2..<Suc n] (pos, vel, g)
                 = (pos'[n := P], vel'[n := V], g'')"
      by (simp add: f s)
    moreover from Suc.prems l have "n < length pos'"
      by simp
    ultimately show ?thesis
      using True l k w P by (auto simp: nth_list_update less_Suc_eq)
  qed
qed

lemma initializeParticles_n_binary:
  assumes "\<forall>a b g. a \<le> fst (uniform a b g)"
    and "max 2 n \<le> length bodyPos" and "max 2 n \<le> length bodyVel"
  shows "\<exists>pos' vel'.
           initializeParticles_n real_arith uniform gen n bodyPos bodyVel BINARY_SYSTEM = Some (pos', vel') \<and>
           pos' ! 0 = \<lparr> x4 = - 2, y4 = 0, z4 = 0, w4 = 50 \<rparr> \<and> vel' ! 0 = \<lparr> x3 = 0, y3 = - 1, z3 = 0 \<rparr> \<and>
           pos' ! 1 = \<lparr> x4 = 2, y4 = 0, z4 = 0, w4 = 50 \<rparr> \<and> vel' ! 1 = \<lparr> x3 = 0, y3 = 1, z3 = 0 \<rparr> \<and>
           (\<forall>i < max 2 n. 0 \<le> w4 (pos' ! i))"
proof -
  let ?pos = "bodyPos[0 := \<lparr> x4 = - 2, y4 = 0, z4 = 0, w4 = 50 \<rparr>, 1 := \<lparr> x4 = 2, y4 = 0, z4 = 0, w4 = 50 \<rparr>]"
  let ?vel = "bodyVel[0 := \<lparr> x3 = 0, y3 = - 1, z3 = 0 \<rparr>, 1 := \<lparr> x3 = 0, y3 = 1, z3 = 0 \<rparr>]"
  from assms(2) have n: "n \<le> length ?pos"
    by simp
  from fold_binaryPlanet [OF assms(1) n, of ?vel gen] obtain pos' vel' g' where
    f: "fold (binaryPlanet real_arith uniform) [2..<n] (?pos, ?vel, gen) = (pos', vel', g')"
    and k: "pos' ! 0 = ?pos ! 0" "pos' ! 1 = ?pos ! 1" "vel' ! 0 = ?vel ! 0" "vel' ! 1 = ?vel ! 1"
    and w: "\<forall>i. 2 \<le> i \<and> i < n \<longrightarrow> 1 / 10 \<le> w4 (pos' ! i)"
    by blast
  from assms(2,3) have "0 < length bodyPos" "1 < length bodyPos" "0 < length bodyVel" "1 < length bodyVel"
    by linarith+
  then have k': "pos' ! 0 = \<lparr> x4 = - 2, y4 = 0, z4 = 0, w4 = 50 \<rparr>"
    "pos' ! 1 = \<lparr> x4 = 2, y4 = 0, z4 = 0, w4 = 50 \<rparr>"
    "vel' ! 0 = \<lparr> x3 = 0, y3 = - 1, z3 = 0 \<rparr>" "vel' ! 1 = \<lparr> x3 = 0, y3 = 1, z3 = 0 \<rparr>"
    unfolding k by (simp_all add: nth_list_update)
  have m: "0 \<le> w4 (pos' ! i)" if "i < max 2 n" for i
  proof (cases "i < 2")
    case True
    then have "i = 0 \<or> i = 1"
      by auto
    with k' show ?thesis
      by auto
  next
    case False
    with that w have "1 / 10 \<le> w4 (pos' ! i)"
      by simp
    then show ?thesis
      by simp
  qed
  have "initializeParticles_n real_arith uniform gen n bodyPos bodyVel BINARY_SYSTEM = Some (pos', vel')"
    using assms(2,3) f by (simp add: initializeParticles_n_def real_ops)
  with k' m show ?thesis
    by blast
qed

text \<open>The function of the source fills \<^verbatim>\<open>NUM_PARTICLES\<close> bodies, that is \<open>1000\<close>.\<close>

lemma initializeParticles_binary:
  assumes "\<forall>a b g. a \<le> fst (uniform a b g)"
    and "1000 \<le> length bodyPos" and "1000 \<le> length bodyVel"
  shows "\<exists>pos' vel'.
           initializeParticles real_arith uniform gen bodyPos bodyVel BINARY_SYSTEM = Some (pos', vel') \<and>
           pos' ! 0 = \<lparr> x4 = - 2, y4 = 0, z4 = 0, w4 = 50 \<rparr> \<and> vel' ! 0 = \<lparr> x3 = 0, y3 = - 1, z3 = 0 \<rparr> \<and>
           pos' ! 1 = \<lparr> x4 = 2, y4 = 0, z4 = 0, w4 = 50 \<rparr> \<and> vel' ! 1 = \<lparr> x3 = 0, y3 = 1, z3 = 0 \<rparr> \<and>
           (\<forall>i < 1000. 0 \<le> w4 (pos' ! i))"
  using initializeParticles_n_binary [OF assms(1), of 1000 bodyPos bodyVel gen] assms(2,3)
  by (simp add: initializeParticles_def NUM_PARTICLES_def)

text \<open>
  C8. With the binary-system configuration, arrays that hold the bodies, and draws that
  are not below the lower bound of their distribution, the generator returns; body \<open>0\<close>
  is at \<open>(-2, 0, 0)\<close> with mass \<open>50\<close> and velocity \<open>(0, -1, 0)\<close>, body \<open>1\<close> is at
  \<open>(2, 0, 0)\<close> with mass \<open>50\<close> and velocity \<open>(0, 1, 0)\<close>, and the mass of every generated
  body is at least \<open>0\<close>.
\<close>

theorem binary_system_stars:
  assumes "\<forall>a b g. a \<le> fst (uniform a b g)"
    and "max 2 n \<le> length bodyPos" and "max 2 n \<le> length bodyVel"
  shows "\<exists>pos' vel'.
           initializeParticles_n real_arith uniform gen n bodyPos bodyVel BINARY_SYSTEM = Some (pos', vel') \<and>
           pos' ! 0 = \<lparr> x4 = - 2, y4 = 0, z4 = 0, w4 = 50 \<rparr> \<and> vel' ! 0 = \<lparr> x3 = 0, y3 = - 1, z3 = 0 \<rparr> \<and>
           pos' ! 1 = \<lparr> x4 = 2, y4 = 0, z4 = 0, w4 = 50 \<rparr> \<and> vel' ! 1 = \<lparr> x3 = 0, y3 = 1, z3 = 0 \<rparr> \<and>
           (\<forall>i < max 2 n. 0 \<le> w4 (pos' ! i))"
  using assms by (rule initializeParticles_n_binary)

theorem binary_system_stars_witness:
  "(\<forall>a b g. a \<le> fst ((\<lambda>a b (g::nat). (a::real, Suc g)) a b g)) \<and>
   max 2 3 \<le> length [\<lparr> x4 = 9, y4 = 9, z4 = 9, w4 = - 1 \<rparr>, \<lparr> x4 = 9, y4 = 9, z4 = 9, w4 = - 1 \<rparr>,
                       \<lparr> x4 = 9, y4 = 9, z4 = 9, w4 = - (1::real) \<rparr>] \<and>
   max 2 3 \<le> length [\<lparr> x3 = 7, y3 = 7, z3 = 7 \<rparr>, \<lparr> x3 = 7, y3 = 7, z3 = 7 \<rparr>,
                       \<lparr> x3 = 7, y3 = 7, z3 = 7::real \<rparr>] \<and>
   (\<exists>pos' vel'.
      initializeParticles_n real_arith (\<lambda>a b (g::nat). (a, Suc g)) 0 3
        [\<lparr> x4 = 9, y4 = 9, z4 = 9, w4 = - 1 \<rparr>, \<lparr> x4 = 9, y4 = 9, z4 = 9, w4 = - 1 \<rparr>,
         \<lparr> x4 = 9, y4 = 9, z4 = 9, w4 = - 1 \<rparr>]
        [\<lparr> x3 = 7, y3 = 7, z3 = 7 \<rparr>, \<lparr> x3 = 7, y3 = 7, z3 = 7 \<rparr>, \<lparr> x3 = 7, y3 = 7, z3 = 7 \<rparr>]
        BINARY_SYSTEM = Some (pos', vel') \<and>
      pos' ! 0 = \<lparr> x4 = - 2, y4 = 0, z4 = 0, w4 = 50 \<rparr> \<and> vel' ! 0 = \<lparr> x3 = 0, y3 = - 1, z3 = 0 \<rparr> \<and>
      pos' ! 1 = \<lparr> x4 = 2, y4 = 0, z4 = 0, w4 = 50 \<rparr> \<and> vel' ! 1 = \<lparr> x3 = 0, y3 = 1, z3 = 0 \<rparr> \<and>
      (\<forall>i < max 2 3. 0 \<le> w4 (pos' ! i)))"
  using binary_system_stars [of "\<lambda>a b (g::nat). (a, Suc g)" 3
      "[\<lparr> x4 = 9, y4 = 9, z4 = 9, w4 = - 1 \<rparr>, \<lparr> x4 = 9, y4 = 9, z4 = 9, w4 = - 1 \<rparr>,
        \<lparr> x4 = 9, y4 = 9, z4 = 9, w4 = - 1 \<rparr>]"
      "[\<lparr> x3 = 7, y3 = 7, z3 = 7 \<rparr>, \<lparr> x3 = 7, y3 = 7, z3 = 7 \<rparr>, \<lparr> x3 = 7, y3 = 7, z3 = 7 \<rparr>]" 0]
  by simp

end
